theory Spec2Isabelle
  imports Main "HOL-Library.FSet" "HOL-Library.AList"
begin

section \<open>Python string primitives used by the server\<close>

text \<open>
  A Python \<open>str\<close> is modelled as a \<open>string\<close> whose characters are read as the code
  points U+0000 .. U+00FF. The functions below follow CPython's behaviour on that range.
\<close>

definition is_space :: "char \<Rightarrow> bool" where
  \<comment> \<open>\<open>str.isspace\<close> on one character: what \<open>split()\<close> and \<open>strip()\<close> treat as blank\<close>
  "is_space c = (c \<in> {CHR 0x09, CHR 0x0A, CHR 0x0B, CHR 0x0C, CHR 0x0D,
                       CHR 0x1C, CHR 0x1D, CHR 0x1E, CHR 0x1F, CHR 0x20,
                       CHR 0x85, CHR 0xA0})"

definition is_linebreak :: "char \<Rightarrow> bool" where
  \<comment> \<open>the line boundaries of \<open>str.splitlines\<close> (carriage return is handled apart)\<close>
  "is_linebreak c = (c \<in> {CHR 0x0A, CHR 0x0B, CHR 0x0C, CHR 0x1C, CHR 0x1D, CHR 0x1E,
                           CHR 0x85})"

definition strip :: "string \<Rightarrow> string" where
  "strip s = rev (dropWhile is_space (rev (dropWhile is_space s)))"

definition startswith :: "string \<Rightarrow> string \<Rightarrow> bool" where
  \<comment> \<open>\<open>startswith p s\<close> is Python's \<open>s.startswith(p)\<close>\<close>
  "startswith p s = (take (length p) s = p)"

fun split_acc :: "string \<Rightarrow> string \<Rightarrow> string list" where
  "split_acc w [] = (if w = [] then [] else [w])"
| "split_acc w (c # cs) =
     (if is_space c then (if w = [] then split_acc [] cs else w # split_acc [] cs)
      else split_acc (w @ [c]) cs)"

definition py_split :: "string \<Rightarrow> string list" where
  \<comment> \<open>\<open>s.split()\<close>: the maximal runs of non-blank characters\<close>
  "py_split s = split_acc [] s"

definition py_split1 :: "string \<Rightarrow> string list" where
  \<comment> \<open>\<open>s.split(maxsplit=1)\<close>: the first word, then the rest of the text from its first
      non-blank character to the end (trailing blanks kept), when there is any\<close>
  "py_split1 s =
     (let s1 = dropWhile is_space s in
      if s1 = [] then []
      else (let w = takeWhile (\<lambda>c. \<not> is_space c) s1;
                r = dropWhile is_space (dropWhile (\<lambda>c. \<not> is_space c) s1)
            in if r = [] then [w] else [w, r]))"

fun splitlines_acc :: "string \<Rightarrow> string \<Rightarrow> string list" where
  "splitlines_acc cur [] = (if cur = [] then [] else [cur])"
| "splitlines_acc cur (c # cs) =
     (if c = CHR 0x0D then
        (case cs of
           [] \<Rightarrow> [cur]
         | d # ds \<Rightarrow> if d = CHR 0x0A then cur # splitlines_acc [] ds
                     else cur # splitlines_acc [] cs)
      else if is_linebreak c then cur # splitlines_acc [] cs
      else splitlines_acc (cur @ [c]) cs)"

definition splitlines :: "string \<Rightarrow> string list" where
  "splitlines s = splitlines_acc [] s"

definition upper_letters :: "string" where
  "upper_letters = ''ABCDEFGHIJKLMNOPQRSTUVWXYZ'' @
     [CHR 0xC0, CHR 0xC1, CHR 0xC2, CHR 0xC3, CHR 0xC4, CHR 0xC5, CHR 0xC6, CHR 0xC7,
      CHR 0xC8, CHR 0xC9, CHR 0xCA, CHR 0xCB, CHR 0xCC, CHR 0xCD, CHR 0xCE, CHR 0xCF,
      CHR 0xD0, CHR 0xD1, CHR 0xD2, CHR 0xD3, CHR 0xD4, CHR 0xD5, CHR 0xD6,
      CHR 0xD8, CHR 0xD9, CHR 0xDA, CHR 0xDB, CHR 0xDC, CHR 0xDD, CHR 0xDE]"

definition lower_letters :: "string" where
  "lower_letters = ''abcdefghijklmnopqrstuvwxyz'' @
     [CHR 0xE0, CHR 0xE1, CHR 0xE2, CHR 0xE3, CHR 0xE4, CHR 0xE5, CHR 0xE6, CHR 0xE7,
      CHR 0xE8, CHR 0xE9, CHR 0xEA, CHR 0xEB, CHR 0xEC, CHR 0xED, CHR 0xEE, CHR 0xEF,
      CHR 0xF0, CHR 0xF1, CHR 0xF2, CHR 0xF3, CHR 0xF4, CHR 0xF5, CHR 0xF6,
      CHR 0xF8, CHR 0xF9, CHR 0xFA, CHR 0xFB, CHR 0xFC, CHR 0xFD, CHR 0xFE]"

definition lower_char :: "char \<Rightarrow> char" where
  "lower_char c = (case map_of (zip upper_letters lower_letters) c of None \<Rightarrow> c | Some d \<Rightarrow> d)"

definition lower :: "string \<Rightarrow> string" where
  "lower s = map lower_char s"

definition is_digit :: "char \<Rightarrow> bool" where
  "is_digit c = (c \<in> set ''0123456789'')"

definition digit_val :: "char \<Rightarrow> nat" where
  "digit_val c = (case map_of (zip ''0123456789'' [0, 1, 2, 3, 4, 5, 6, 7, 8, 9]) c of
                    None \<Rightarrow> 0 | Some n \<Rightarrow> n)"

fun parse_digits :: "nat \<Rightarrow> string \<Rightarrow> nat option" where
  "parse_digits acc [] = Some acc"
| "parse_digits acc (c # cs) =
     (if c = CHR ''_'' then
        (case cs of [] \<Rightarrow> None
                  | d # ds \<Rightarrow> if is_digit d then parse_digits acc cs else None)
      else if is_digit c then parse_digits (acc * 10 + digit_val c) cs
      else None)"

definition py_int :: "string \<Rightarrow> int option" where
  \<comment> \<open>\<open>int(s)\<close> in base 10: blanks around the text are ignored, then an optional sign, then
      digits, with single underscores allowed between digits. \<open>None\<close> is \<open>ValueError\<close>.
      CPython's configurable limit on the number of digits is not modelled.\<close>
  "py_int s =
     (let t = strip s;
          neg = (case t of [] \<Rightarrow> False | c # _ \<Rightarrow> c = CHR ''-'');
          body = (case t of [] \<Rightarrow> []
                          | c # r \<Rightarrow> if c = CHR ''-'' \<or> c = CHR ''+'' then r else t)
      in case body of
           [] \<Rightarrow> None
         | c # _ \<Rightarrow>
             if is_digit c
             then map_option (\<lambda>n. if neg then - int n else int n) (parse_digits 0 body)
             else None)"

section \<open>Data model of \<open>DebuggerServer\<close>\<close>

type_synonym addr = "string \<times> nat"
type_synonym ref = nat

text \<open>
  A variable context is a Python dict: an association list in insertion order, changed
  with \<open>AList.update\<close>, which keeps the position of a key that is already there.
\<close>

type_synonym 'v ctx = "(string \<times> 'v) list"

text \<open>
  The dicts of contexts are shared objects: \<open>self.contexts[program]\<close> and the second
  component of \<open>self.states[program]\<close> are references to one dict, mutated in place by
  \<open>exec\<close>. The model keeps them in a store \<open>heap\<close>, addressed by references; a new
  dict \<open>{}\<close> takes the reference \<open>next_ref\<close>. The fields \<open>host\<close> and \<open>port\<close> play no
  role in the command handling and are left out; of \<open>clients\<close> only the keys are kept.

  \<open>module_globals\<close> is no field of the class: it is the dict that \<open>globals()\<close> returns
  inside \<open>server.py\<close>, the namespace of the module. \<open>cont\<close> and \<open>set_var\<close> hand it
  to \<open>exec\<close> and \<open>eval\<close> next to the context (lines 212 and 182), so a statement can
  read and bind names there. It is one dict for the whole life of the server, shared by
  all programs, and no command replaces it.
\<close>

record 'v server =
  programs :: "(string \<times> string) list"
  breakpoints :: "string \<rightharpoonup> int fset"
  clients :: "addr set"
  contexts :: "string \<rightharpoonup> ref"
  debugging :: "(string \<times> addr) list"
  executing :: "string set"
  paused :: "string set"
  states :: "string \<rightharpoonup> (nat \<times> ref)"
  heap :: "ref \<Rightarrow> 'v ctx"
  next_ref :: ref
  module_globals :: "'v ctx"

text \<open>
  The statement interpreter is Python's \<open>exec\<close> and \<open>eval\<close>, called with two dicts:
  \<open>exec(line, globals(), ctx)\<close>. The server treats it as opaque, and so does the model:
  a pair of functions of the source text, the module globals and the context, in the
  order of the call. They return either the two dicts as the statement left them, or the
  message of the exception raised together with the two dicts as they were left at that
  point (both are mutated in place). Only an exception that \<open>except Exception\<close>
  catches is covered: a statement that does not return, one that raises \<open>SystemExit\<close>,
  or one that reaches objects other than these two dicts, is outside the model.
\<close>

datatype 'v exec_result =
    ExecOk "'v ctx" "'v ctx"             \<comment> \<open>the globals and the context afterwards\<close>
  | ExecRaise string "'v ctx" "'v ctx"   \<comment> \<open>the message, the globals and the context\<close>

datatype 'v eval_result =
    EvalOk 'v "'v ctx" "'v ctx"
  | EvalRaise string "'v ctx" "'v ctx"

record 'v interp =
  py_exec :: "string \<Rightarrow> 'v ctx \<Rightarrow> 'v ctx \<Rightarrow> 'v exec_result"
  py_eval :: "string \<Rightarrow> 'v ctx \<Rightarrow> 'v ctx \<Rightarrow> 'v eval_result"

text \<open>
  The responses of \<open>process_command\<close>, one constructor for each text the source builds;
  the values that the text formats are kept as arguments. \<open>Uncaught_KeyError\<close> is not
  a response: it stands for the \<open>KeyError\<close> that leaves \<open>process_command\<close> when
  \<open>cont\<close> reads \<open>self.programs[program]\<close> for a name that is not in the catalog.
\<close>

datatype 'v reply =
    ErrInvalidCommand              \<comment> \<open>\<open>Error: Invalid command.\<close>\<close>
  | Help                           \<comment> \<open>the text of \<open>help_text\<close>\<close>
  | Programs "string list"         \<comment> \<open>\<open>Programs: [...]\<close>\<close>
  | ErrNotFound string             \<comment> \<open>\<open>Error: Program 'p' not found.\<close>\<close>
  | Breakpoints string "int list"  \<comment> \<open>\<open>Breakpoints in 'p': [...]\<close>\<close>
  | ErrFormatAdd                   \<comment> \<open>\<open>Error: Format add_breakpoint <program> <line>\<close>\<close>
  | ErrFormatRmv                   \<comment> \<open>\<open>Error: Format rmv_breakpoint <program> <line>\<close>\<close>
  | ErrBusy string                 \<comment> \<open>\<open>Error: 'p' is currently executing.\<close>\<close>
  | BreakpointSet string string    \<comment> \<open>\<open>Breakpoint set at line L in 'p'.\<close> (line token, program)\<close>
  | BreakpointRemoved string string \<comment> \<open>\<open>Breakpoint removed from line L in 'p'.\<close>\<close>
  | ErrLineInt                     \<comment> \<open>\<open>Error: Line must be integer.\<close>\<close>
  | ErrAlreadyDebugged string      \<comment> \<open>\<open>Error: 'p' is already debugged.\<close>\<close>
  | ErrSessionBusy string          \<comment> \<open>\<open>Error: You are already debugging 'p'.\<close>\<close>
  | Attached string                \<comment> \<open>\<open>Attached to 'p'\<close>\<close>
  | Detached string                \<comment> \<open>\<open>Detached from 'p'\<close>\<close>
  | NotAttached                    \<comment> \<open>\<open>Not attached.\<close>\<close>
  | ErrNeedsAttachment string      \<comment> \<open>\<open>Error: 'name' needs attachment.\<close>\<close>
  | ErrNotPaused string            \<comment> \<open>\<open>Error: 'p' is not paused at a breakpoint. Use 'start' first.\<close>\<close>
  | VarValue string 'v             \<comment> \<open>\<open>var = repr(value)\<close>\<close>
  | VarNotFound string             \<comment> \<open>\<open>var not found.\<close>\<close>
  | ErrFormatSetVar                \<comment> \<open>\<open>Error: Format set_var <name> <value>\<close>\<close>
  | VarSet string 'v               \<comment> \<open>\<open>var set to repr(value)\<close>\<close>
  | ErrException string            \<comment> \<open>\<open>Error: e\<close>, from \<open>set_var\<close>\<close>
  | ErrKeyError string
      \<comment> \<open>\<open>Error: e\<close> where \<open>e\<close> is the \<open>KeyError\<close> of \<open>self.contexts[program]\<close>\<close>
  | ErrUnknown string              \<comment> \<open>\<open>Error: Unknown command 'name'\<close>\<close>
  | ErrStartFirst                  \<comment> \<open>\<open>Error: Start first.\<close>\<close>
  | BreakpointAt int "string option"
      \<comment> \<open>\<open>Breakpoint at line L: text\<close>; \<open>None\<close> is \<open>end of program\<close>\<close>
  | Finished string "(string \<times> 'v) list"
      \<comment> \<open>\<open>Finished 'p'. Vars: {...}\<close>, the values shown by \<open>repr\<close>\<close>
  | ErrOnLine int string           \<comment> \<open>\<open>Error on line L: e\<close>\<close>
  | Uncaught_KeyError string

section \<open>The run loop: \<open>cont\<close> and \<open>run\<close>\<close>

datatype 'v outcome =
    Paused nat "'v ctx" "'v ctx"          \<comment> \<open>the \<open>return\<close> inside the loop, at a breakpoint\<close>
  | Completed nat "'v ctx" "'v ctx"       \<comment> \<open>the loop ran to the end of \<open>lines\<close>\<close>
  | Failed nat string "'v ctx" "'v ctx"   \<comment> \<open>\<open>exec\<close> raised; the \<open>except\<close> branch\<close>

text \<open>
  The \<open>while\<close> loop of \<open>cont\<close> (lines 207 to 217), with the values of \<open>idx\<close>, of the
  module globals \<open>g\<close> and of the dict \<open>ctx\<close> when it is left. \<open>bps\<close> is
  \<open>self.breakpoints.get(program)\<close>.
\<close>

function run_loop ::
  "(string \<Rightarrow> 'v ctx \<Rightarrow> 'v ctx \<Rightarrow> 'v exec_result) \<Rightarrow> string list \<Rightarrow> int fset option \<Rightarrow> nat
     \<Rightarrow> 'v ctx \<Rightarrow> 'v ctx \<Rightarrow> 'v outcome" where
  "run_loop ex lines bps idx g ctx =
     (if idx < length lines then
        (let line = strip (lines ! idx); idx' = idx + 1 in
         if line = [] \<or> startswith ''#'' line then run_loop ex lines bps idx' g ctx
         else (case ex line g ctx of
                 ExecRaise e g' ctx' \<Rightarrow> Failed idx' e g' ctx'
               | ExecOk g' ctx' \<Rightarrow>
                   if (case bps of None \<Rightarrow> False | Some S \<Rightarrow> int idx' + 1 |\<in>| S)
                   then Paused idx' g' ctx'
                   else run_loop ex lines bps idx' g' ctx'))
      else Completed idx g ctx)"
  by pat_completeness auto
termination
  by (relation "measure (\<lambda>(ex, lines, bps, idx, g, ctx). length lines - idx)") auto

declare run_loop.simps [simp del]

text \<open>
  Two tests of the loop, named for the statements about it: a line is executable when
  the loop passes it to \<open>exec\<close> (line 210), and the cursor \<open>idx\<close>, after its increment,
  hits a breakpoint when the number of the next line is in the set (line 213).
\<close>

definition executable :: "string \<Rightarrow> bool" where
  "executable l = (strip l \<noteq> [] \<and> \<not> startswith ''#'' (strip l))"

definition hits :: "int fset option \<Rightarrow> nat \<Rightarrow> bool" where
  "hits bps idx = (case bps of None \<Rightarrow> False | Some S \<Rightarrow> int idx + 1 |\<in>| S)"

definition cont :: "'v interp \<Rightarrow> 'v server \<Rightarrow> string \<Rightarrow> 'v reply \<times> 'v server" where
  "cont ip s program =
     (case states s program of
        None \<Rightarrow> (ErrStartFirst, s)
      | Some (idx, r) \<Rightarrow>
          (let s1 = s\<lparr>executing := insert program (executing s),
                      paused := paused s - {program}\<rparr>
           in case map_of (programs s) program of
                None \<Rightarrow> (Uncaught_KeyError program, s1)
              | Some text \<Rightarrow>
                  (let lines = splitlines text in
                   case run_loop (py_exec ip) lines (breakpoints s program) idx
                          (module_globals s) (heap s r) of
                     Paused idx' g' ctx' \<Rightarrow>
                       (BreakpointAt (int idx' + 1)
                          (if idx' < length lines then Some (strip (lines ! idx')) else None),
                        s1\<lparr>module_globals := g', heap := (heap s)(r := ctx'),
                           states := (states s)(program \<mapsto> (idx', r)),
                           executing := executing s1 - {program},
                           paused := insert program (paused s1)\<rparr>)
                   | Completed idx' g' ctx' \<Rightarrow>
                       (Finished program (filter (\<lambda>(k, v). \<not> startswith ''__'' k) ctx'),
                        s1\<lparr>module_globals := g', heap := (heap s)(r := ctx'),
                           executing := executing s1 - {program},
                           paused := paused s1 - {program},
                           states := (states s)(program \<mapsto> (idx', r))\<rparr>)
                   | Failed idx' e g' ctx' \<Rightarrow>
                       (ErrOnLine (int idx') e,
                        s1\<lparr>module_globals := g', heap := (heap s)(r := ctx'),
                           executing := executing s1 - {program},
                           paused := paused s1 - {program}\<rparr>))))"

definition run :: "'v interp \<Rightarrow> 'v server \<Rightarrow> string \<Rightarrow> 'v reply \<times> 'v server" where
  "run ip s program =
     (let r = next_ref s in
      cont ip
        (s\<lparr>executing := insert program (executing s),
           paused := paused s - {program},
           contexts := (contexts s)(program \<mapsto> r),
           heap := (heap s)(r := []),
           next_ref := Suc r,
           states := (states s)(program \<mapsto> (0, r))\<rparr>)
        program)"

section \<open>\<open>process_command\<close>\<close>

definition list_breakpoints :: "'v server \<Rightarrow> string \<Rightarrow> 'v reply \<times> 'v server" where
  "list_breakpoints s args =
     (case breakpoints s args of
        None \<Rightarrow> (ErrNotFound args, s)
      | Some S \<Rightarrow> (Breakpoints args (sorted_list_of_fset S), s))"

text \<open>
  \<open>self.breakpoints.setdefault(program, set())\<close> is evaluated before \<open>int(line)\<close>: the
  entry is there when \<open>int\<close> raises.
\<close>

definition setdefault :: "(string \<rightharpoonup> int fset) \<Rightarrow> string \<Rightarrow> (string \<rightharpoonup> int fset)" where
  "setdefault m k = (case m k of None \<Rightarrow> m(k \<mapsto> {||}) | Some S \<Rightarrow> m)"

definition add_breakpoint :: "'v server \<Rightarrow> string \<Rightarrow> 'v reply \<times> 'v server" where
  "add_breakpoint s args =
     (case py_split args of
        [program, line] \<Rightarrow>
          if map_of (programs s) program = None then (ErrNotFound program, s)
          else if program \<in> executing s \<or> program \<in> paused s then (ErrBusy program, s)
          else (let m = setdefault (breakpoints s) program in
                case py_int line of
                  None \<Rightarrow> (ErrLineInt, s\<lparr>breakpoints := m\<rparr>)
                | Some n \<Rightarrow>
                    (BreakpointSet line program,
                     s\<lparr>breakpoints := m(program \<mapsto> finsert n (the (m program)))\<rparr>))
      | _ \<Rightarrow> (ErrFormatAdd, s))"

definition rmv_breakpoint :: "'v server \<Rightarrow> string \<Rightarrow> 'v reply \<times> 'v server" where
  "rmv_breakpoint s args =
     (case py_split args of
        [program, line] \<Rightarrow>
          if map_of (programs s) program = None then (ErrNotFound program, s)
          else if program \<in> executing s \<or> program \<in> paused s then (ErrBusy program, s)
          else (let m = setdefault (breakpoints s) program in
                case py_int line of
                  None \<Rightarrow> (ErrLineInt, s\<lparr>breakpoints := m\<rparr>)
                | Some n \<Rightarrow>
                    (BreakpointRemoved line program,
                     s\<lparr>breakpoints := m(program \<mapsto> the (m program) |-| {|n|})\<rparr>))
      | _ \<Rightarrow> (ErrFormatRmv, s))"

definition attach :: "'v server \<Rightarrow> string \<Rightarrow> addr \<Rightarrow> 'v reply \<times> 'v server" where
  "attach s args a =
     (if args = [] \<or> map_of (programs s) args = None then (ErrNotFound args, s)
      else if map_of (debugging s) args \<noteq> None then (ErrAlreadyDebugged args, s)
      else (case find (\<lambda>(p, u). u = a) (debugging s) of
              Some (p, u) \<Rightarrow> (ErrSessionBusy p, s)
            | None \<Rightarrow>
                (let s1 = s\<lparr>debugging := debugging s @ [(args, a)]\<rparr> in
                 (Attached args,
                  if states s1 args = None
                  then (let r = next_ref s1 in
                        s1\<lparr>contexts := (contexts s1)(args \<mapsto> r),
                           heap := (heap s1)(r := []),
                           next_ref := Suc r,
                           states := (states s1)(args \<mapsto> (0, r))\<rparr>)
                  else s1))))"

definition release :: "'v server \<Rightarrow> string \<Rightarrow> 'v server" where
  \<comment> \<open>\<open>del self.debugging[p]\<close> and the two \<open>discard\<close>s that follow it\<close>
  "release s p =
     s\<lparr>debugging := AList.delete p (debugging s),
       executing := executing s - {p},
       paused := paused s - {p}\<rparr>"

definition detach :: "'v server \<Rightarrow> addr \<Rightarrow> 'v reply \<times> 'v server" where
  "detach s a =
     (case find (\<lambda>(p, u). u = a) (debugging s) of
        Some (p, u) \<Rightarrow> (Detached p, release s p)
      | None \<Rightarrow> (NotAttached, s))"

definition get_var :: "'v server \<Rightarrow> string \<Rightarrow> string \<Rightarrow> 'v reply \<times> 'v server" where
  "get_var s program args =
     (let ctx = (case contexts s program of None \<Rightarrow> [] | Some r \<Rightarrow> heap s r) in
      case map_of ctx args of
        Some v \<Rightarrow> (VarValue args v, s)
      | None \<Rightarrow> (VarNotFound args, s))"

definition set_var :: "'v interp \<Rightarrow> 'v server \<Rightarrow> string \<Rightarrow> string \<Rightarrow> 'v reply \<times> 'v server" where
  "set_var ip s program args =
     (case py_split1 args of
        [var, val] \<Rightarrow>
          (case contexts s program of
             None \<Rightarrow> (ErrKeyError program, s)
           | Some r \<Rightarrow>
               (case py_eval ip val (module_globals s) (heap s r) of
                  EvalOk v g' ctx' \<Rightarrow>
                    (VarSet var v,
                     s\<lparr>module_globals := g', heap := (heap s)(r := AList.update var v ctx')\<rparr>)
                | EvalRaise e g' ctx' \<Rightarrow>
                    (ErrException e, s\<lparr>module_globals := g', heap := (heap s)(r := ctx')\<rparr>)))
      | _ \<Rightarrow> (ErrFormatSetVar, s))"

text \<open>
  The body of \<open>process_command\<close> after the command line is split: \<open>name\<close> is the
  lower-cased first word, \<open>args\<close> the rest of the line.
\<close>

definition dispatch ::
  "'v interp \<Rightarrow> 'v server \<Rightarrow> string \<Rightarrow> string \<Rightarrow> addr \<Rightarrow> 'v reply \<times> 'v server" where
  "dispatch ip s name args a =
     (if name = ''help'' then (Help, s)
      else if name = ''list_programs'' then (Programs (map fst (programs s)), s)
      else if name = ''list_breakpoints'' then list_breakpoints s args
      else if name = ''add_breakpoint'' then add_breakpoint s args
      else if name = ''rmv_breakpoint'' then rmv_breakpoint s args
      else if name = ''attach'' then attach s args a
      else if name = ''detach'' then detach s a
      else (case find (\<lambda>(p, u). u = a) (debugging s) of
              None \<Rightarrow> (ErrNeedsAttachment name, s)
            | Some (program, u) \<Rightarrow>
                if program = [] then (ErrNeedsAttachment name, s)
                else if name = ''start'' then run ip s program
                else if name = ''continue'' then
                  (if program \<notin> paused s then (ErrNotPaused program, s)
                   else cont ip s program)
                else if name = ''get_var'' then get_var s program args
                else if name = ''set_var'' then set_var ip s program args
                else (ErrUnknown name, s)))"

definition process_command ::
  "'v interp \<Rightarrow> 'v server \<Rightarrow> string \<Rightarrow> addr \<Rightarrow> 'v reply \<times> 'v server" where
  "process_command ip s cmd a =
     (case py_split1 cmd of
        [] \<Rightarrow> (ErrInvalidCommand, s)
      | w # rest \<Rightarrow> dispatch ip s (lower w) (case rest of [] \<Rightarrow> [] | r # _ \<Rightarrow> r) a)"

section \<open>\<open>handle_client\<close>: connecting and the cleanup of a session\<close>

definition connect :: "'v server \<Rightarrow> addr \<Rightarrow> 'v server" where
  "connect s a = s\<lparr>clients := insert a (clients s)\<rparr>"

fun cleanup_loop :: "(string \<times> addr) list \<Rightarrow> addr \<Rightarrow> 'v server \<Rightarrow> 'v server" where
  "cleanup_loop [] a s = s"
| "cleanup_loop ((program, user) # rest) a s =
     cleanup_loop rest a (if user = a then release s program else s)"

definition disconnect :: "'v server \<Rightarrow> addr \<Rightarrow> 'v server" where
  \<comment> \<open>the \<open>finally\<close> block of \<open>handle_client\<close>; the loop runs over a copy of the items\<close>
  "disconnect s a = cleanup_loop (debugging s) a (s\<lparr>clients := clients s - {a}\<rparr>)"

section \<open>The server from its start on\<close>

definition init_server :: "(string \<times> string) list \<Rightarrow> 'v server" where
  \<comment> \<open>\<open>__init__\<close>: empty dicts and sets, and the catalog that \<open>load_programs\<close> read;
      no statement has bound a name in the module globals yet\<close>
  "init_server progs =
     \<lparr>programs = progs, breakpoints = Map.empty, clients = {}, contexts = Map.empty,
      debugging = [], executing = {}, paused = {}, states = Map.empty,
      heap = (\<lambda>r. []), next_ref = 0, module_globals = []\<rparr>"

text \<open>
  The states the server goes through when commands are handled one after the other:
  any session may connect, send any command line, or drop its connection. The keys of a
  dict are distinct, so the catalog is a list with distinct names. The module binds
  names of its own before the server starts (its imports and the class), so the module
  globals \<open>g0\<close> of the first state are arbitrary.
\<close>

inductive reachable :: "'v interp \<Rightarrow> 'v server \<Rightarrow> bool" for ip :: "'v interp" where
  start: "distinct (map fst progs) \<Longrightarrow>
          reachable ip ((init_server progs)\<lparr>module_globals := g0\<rparr>)"
| command: "reachable ip s \<Longrightarrow> reachable ip (snd (process_command ip s cmd a))"
| connected: "reachable ip s \<Longrightarrow> reachable ip (connect s a)"
| dropped: "reachable ip s \<Longrightarrow> reachable ip (disconnect s a)"

text \<open>
  What holds of the dicts in every reachable state: the names of the catalog are
  distinct, \<open>debugging\<close> has distinct keys and distinct values, every program in it is
  a named program of the catalog with an entry in \<open>states\<close>, and every reference in
  \<open>contexts\<close> and \<open>states\<close> is below \<open>next_ref\<close>, so that a new dict is a new object.
\<close>

definition consistent :: "'v server \<Rightarrow> bool" where
  "consistent s =
     (distinct (map fst (programs s)) \<and>
      distinct (map fst (debugging s)) \<and>
      distinct (map snd (debugging s)) \<and>
      [] \<notin> fst ` set (debugging s) \<and>
      fst ` set (debugging s) \<subseteq> fst ` set (programs s) \<and>
      fst ` set (debugging s) \<subseteq> dom (states s) \<and>
      (\<forall>p r. contexts s p = Some r \<longrightarrow> r < next_ref s) \<and>
      (\<forall>p i r. states s p = Some (i, r) \<longrightarrow> r < next_ref s))"

section \<open>A debugging session: \<open>start\<close>, then \<open>continue\<close> while the program pauses\<close>

fun pause_line :: "'v reply \<Rightarrow> int option" where
  "pause_line (BreakpointAt l t) = Some l"
| "pause_line _ = None"

definition attached :: "'v server \<Rightarrow> addr \<Rightarrow> string option" where
  \<comment> \<open>the program that \<open>process_command\<close> finds for a session (lines 152 to 158)\<close>
  "attached s a =
     (case find (\<lambda>(p, u). u = a) (debugging s) of
        None \<Rightarrow> None
      | Some (p, u) \<Rightarrow> if p = [] then None else Some p)"

definition remaining :: "'v server \<Rightarrow> addr \<Rightarrow> nat" where
  \<comment> \<open>the lines between the stored cursor and the end of the attached program\<close>
  "remaining s a =
     (case attached s a of
        None \<Rightarrow> 0
      | Some p \<Rightarrow>
          (case states s p of
             None \<Rightarrow> 0
           | Some (idx, r) \<Rightarrow>
               (case map_of (programs s) p of
                  None \<Rightarrow> 0
                | Some text \<Rightarrow> length (splitlines text) - idx)))"

section \<open>A stub interpreter and a demo catalog\<close>

text \<open>
  Modelled from the spec: the stub interpreter of its design notes, "one supporting only
  assignment and arithmetic". The server itself calls Python's \<open>exec\<close> and \<open>eval\<close>,
  which are no code of the repository. The stub runs a statement \<open>name = t1 + ... + tn\<close>
  whose tokens are separated by blanks, each \<open>ti\<close> an integer literal or a name, and
  raises on everything else; its values are integers. As in Python, the assignment binds
  the name in the context, and a name is looked up in the context first and in the module
  globals next. The one other statement, Python's way to bind a global name, is
  \<open>global name; name = t1 + ... + tn\<close>: it binds the name in the module globals, and
  looks that name up there only.
\<close>

definition name_error :: "string \<Rightarrow> string" where
  \<comment> \<open>the message of Python's \<open>NameError\<close>, the name between single quotes\<close>
  "name_error t = ''name '' @ [CHR 0x27] @ t @ [CHR 0x27] @ '' is not defined''"

definition atom :: "int ctx \<Rightarrow> int ctx \<Rightarrow> string \<Rightarrow> string + int" where
  "atom g ctx t =
     (case py_int t of
        Some n \<Rightarrow> Inr n
      | None \<Rightarrow> (case map_of ctx t of
                   Some v \<Rightarrow> Inr v
                 | None \<Rightarrow> (case map_of g t of
                              Some v \<Rightarrow> Inr v
                            | None \<Rightarrow> Inl (name_error t))))"

fun eval_sum :: "int ctx \<Rightarrow> int ctx \<Rightarrow> string list \<Rightarrow> string + int" where
  "eval_sum g ctx [] = Inl ''invalid syntax''"
| "eval_sum g ctx [t] = atom g ctx t"
| "eval_sum g ctx (t # opr # rest) =
     (if opr = ''+'' then
        (case atom g ctx t of
           Inl e \<Rightarrow> Inl e
         | Inr m \<Rightarrow> (case eval_sum g ctx rest of Inl e \<Rightarrow> Inl e | Inr n \<Rightarrow> Inr (m + n)))
      else Inl ''invalid syntax'')"

definition stub_exec :: "string \<Rightarrow> int ctx \<Rightarrow> int ctx \<Rightarrow> int exec_result" where
  "stub_exec line g ctx =
     (case py_split line of
        v # eq # rhs \<Rightarrow>
          if eq = ''='' then
            (case eval_sum g ctx rhs of
               Inr n \<Rightarrow> ExecOk g (AList.update v n ctx)
             | Inl e \<Rightarrow> ExecRaise e g ctx)
          else
            (case rhs of
               w # eq' # rhs' \<Rightarrow>
                 if v = ''global'' \<and> eq = w @ '';'' \<and> eq' = ''='' then
                   (case eval_sum g (AList.delete w ctx) rhs' of
                      Inr n \<Rightarrow> ExecOk (AList.update w n g) ctx
                    | Inl e \<Rightarrow> ExecRaise e g ctx)
                 else ExecRaise ''invalid syntax'' g ctx
             | _ \<Rightarrow> ExecRaise ''invalid syntax'' g ctx)
      | _ \<Rightarrow> ExecRaise ''invalid syntax'' g ctx)"

definition stub_eval :: "string \<Rightarrow> int ctx \<Rightarrow> int ctx \<Rightarrow> int eval_result" where
  "stub_eval expr g ctx =
     (case eval_sum g ctx (py_split expr) of
        Inr n \<Rightarrow> EvalOk n g ctx
      | Inl e \<Rightarrow> EvalRaise e g ctx)"

definition stub :: "int interp" where
  "stub = \<lparr>py_exec = stub_exec, py_eval = stub_eval\<rparr>"

definition demo_text :: string where
  \<comment> \<open>the three statements \<open>x = 1\<close>, \<open>y = 2\<close>, \<open>x = x + y\<close>, one on each line\<close>
  "demo_text = ''x = 1'' @ [CHR 0x0A] @ ''y = 2'' @ [CHR 0x0A] @ ''x = x + y''"

definition demo_catalog :: "(string \<times> string) list" where
  "demo_catalog = [(''demo'', demo_text), (''other'', ''z = 5'')]"

definition alice :: addr where
  "alice = (''127.0.0.1'', 50001)"

definition bob :: addr where
  "bob = (''127.0.0.1'', 50002)"

text \<open>
  The server after \<open>attach demo\<close> from the first session, with the breakpoint store
  \<open>B\<close>; and after \<open>start\<close> has then paused at the breakpoint of line 2.
\<close>

definition demo_attached :: "(string \<rightharpoonup> int fset) \<Rightarrow> int server" where
  "demo_attached B =
     (init_server demo_catalog)
       \<lparr>breakpoints := B,
        contexts := [''demo'' \<mapsto> 0], debugging := [(''demo'', alice)],
        states := [''demo'' \<mapsto> (0, 0)], heap := (\<lambda>r. [])(0 := []), next_ref := 1\<rparr>"

definition demo_paused :: "int server" where
  "demo_paused =
     (init_server demo_catalog)
       \<lparr>breakpoints := [''demo'' \<mapsto> {|2|}],
        contexts := [''demo'' \<mapsto> 1], debugging := [(''demo'', alice)],
        paused := {''demo''},
        states := [''demo'' \<mapsto> (1, 1)],
        heap := (\<lambda>r. [])(0 := [], 1 := [(''x'', 1)]), next_ref := 2\<rparr>"

text \<open>
  A program whose second statement fails, \<open>y\<close> being bound nowhere; the server after
  \<open>add_breakpoint broken 2\<close> and \<open>attach broken\<close> from the first session; and after
  \<open>start\<close> has then paused at line 2, before the statement that fails.
\<close>

definition broken_text :: string where
  "broken_text = ''q = 1'' @ [CHR 0x0A] @ ''x = y''"

definition broken_catalog :: "(string \<times> string) list" where
  "broken_catalog = [(''broken'', broken_text)]"

definition broken_attached :: "int server" where
  "broken_attached =
     (init_server broken_catalog)
       \<lparr>breakpoints := [''broken'' \<mapsto> {|2|}],
        contexts := [''broken'' \<mapsto> 0], debugging := [(''broken'', alice)],
        states := [''broken'' \<mapsto> (0, 0)], heap := (\<lambda>r. [])(0 := []), next_ref := 1\<rparr>"

definition broken_paused :: "int server" where
  "broken_paused =
     (init_server broken_catalog)
       \<lparr>breakpoints := [''broken'' \<mapsto> {|2|}],
        contexts := [''broken'' \<mapsto> 1], debugging := [(''broken'', alice)],
        paused := {''broken''},
        states := [''broken'' \<mapsto> (1, 1)],
        heap := (\<lambda>r. [])(0 := [], 1 := [(''q'', 1)]), next_ref := 2\<rparr>"

text \<open>
  A program whose second statement binds \<open>g\<close> in the module globals, with a breakpoint
  at line 2. The server after \<open>attach leak\<close>; paused at line 2 in the first run; after
  \<open>continue\<close> has finished that run; and paused at line 2 again after a second \<open>start\<close>.
\<close>

definition leak_text :: string where
  "leak_text = ''x = 1'' @ [CHR 0x0A] @ ''global g; g = 7''"

definition leak_catalog :: "(string \<times> string) list" where
  "leak_catalog = [(''leak'', leak_text)]"

definition leak_attached :: "int server" where
  "leak_attached =
     (init_server leak_catalog)
       \<lparr>breakpoints := [''leak'' \<mapsto> {|2|}],
        contexts := [''leak'' \<mapsto> 0], debugging := [(''leak'', alice)],
        states := [''leak'' \<mapsto> (0, 0)], heap := (\<lambda>r. [])(0 := []), next_ref := 1\<rparr>"

definition leak_paused :: "int server" where
  "leak_paused =
     (init_server leak_catalog)
       \<lparr>breakpoints := [''leak'' \<mapsto> {|2|}],
        contexts := [''leak'' \<mapsto> 1], debugging := [(''leak'', alice)],
        paused := {''leak''},
        states := [''leak'' \<mapsto> (1, 1)],
        heap := (\<lambda>r. [])(0 := [], 1 := [(''x'', 1)]), next_ref := 2\<rparr>"

definition leak_finished :: "int server" where
  "leak_finished =
     (init_server leak_catalog)
       \<lparr>breakpoints := [''leak'' \<mapsto> {|2|}],
        contexts := [''leak'' \<mapsto> 1], debugging := [(''leak'', alice)],
        states := [''leak'' \<mapsto> (2, 1)],
        heap := (\<lambda>r. [])(0 := [], 1 := [(''x'', 1)]), next_ref := 2,
        module_globals := [(''g'', 7)]\<rparr>"

definition leak_restarted :: "int server" where
  "leak_restarted =
     (init_server leak_catalog)
       \<lparr>breakpoints := [''leak'' \<mapsto> {|2|}],
        contexts := [''leak'' \<mapsto> 2], debugging := [(''leak'', alice)],
        paused := {''leak''},
        states := [''leak'' \<mapsto> (1, 2)],
        heap := (\<lambda>r. [])(0 := [], 1 := [(''x'', 1)], 2 := [(''x'', 1)]), next_ref := 3,
        module_globals := [(''g'', 7)]\<rparr>"

text \<open>The server when the second session has attached to \<open>other\<close> as well.\<close>

definition demo_both :: "int server" where
  "demo_both =
     (init_server demo_catalog)
       \<lparr>contexts := [''demo'' \<mapsto> 0, ''other'' \<mapsto> 1],
        debugging := [(''demo'', alice), (''other'', bob)],
        states := [''demo'' \<mapsto> (0, 0), ''other'' \<mapsto> (0, 1)],
        heap := (\<lambda>r. [])(0 := [], 1 := []), next_ref := 2\<rparr>"

section \<open>Properties of the run loop\<close>

lemma run_loop_skip:
  "idx < length lines \<Longrightarrow> \<not> executable (lines ! idx) \<Longrightarrow>
   run_loop ex lines bps idx g ctx = run_loop ex lines bps (Suc idx) g ctx"
  by (subst run_loop.simps) (auto simp add: executable_def Let_def)

lemma run_loop_end:
  "\<not> idx < length lines \<Longrightarrow> run_loop ex lines bps idx g ctx = Completed idx g ctx"
  by (subst run_loop.simps) simp

lemma run_loop_raise:
  "idx < length lines \<Longrightarrow> executable (lines ! idx) \<Longrightarrow>
   ex (strip (lines ! idx)) g ctx = ExecRaise e g' ctx' \<Longrightarrow>
   run_loop ex lines bps idx g ctx = Failed (Suc idx) e g' ctx'"
  by (subst run_loop.simps) (auto simp add: executable_def Let_def)

lemma run_loop_pause:
  "idx < length lines \<Longrightarrow> executable (lines ! idx) \<Longrightarrow>
   ex (strip (lines ! idx)) g ctx = ExecOk g' ctx' \<Longrightarrow> hits bps (Suc idx) \<Longrightarrow>
   run_loop ex lines bps idx g ctx = Paused (Suc idx) g' ctx'"
  by (subst run_loop.simps) (auto simp add: executable_def hits_def Let_def)

lemma run_loop_step:
  "idx < length lines \<Longrightarrow> executable (lines ! idx) \<Longrightarrow>
   ex (strip (lines ! idx)) g ctx = ExecOk g' ctx' \<Longrightarrow> \<not> hits bps (Suc idx) \<Longrightarrow>
   run_loop ex lines bps idx g ctx = run_loop ex lines bps (Suc idx) g' ctx'"
  by (subst run_loop.simps) (auto simp add: executable_def hits_def Let_def)

lemma run_loop_cases:
  obtains
    (finished) "\<not> idx < length lines"
  | (skip) "idx < length lines" "\<not> executable (lines ! idx)"
  | (raise) e g' ctx' where "idx < length lines" "executable (lines ! idx)"
      "ex (strip (lines ! idx)) g ctx = ExecRaise e g' ctx'"
  | (pause) g' ctx' where "idx < length lines" "executable (lines ! idx)"
      "ex (strip (lines ! idx)) g ctx = ExecOk g' ctx'" "hits bps (Suc idx)"
  | (step) g' ctx' where "idx < length lines" "executable (lines ! idx)"
      "ex (strip (lines ! idx)) g ctx = ExecOk g' ctx'" "\<not> hits bps (Suc idx)"
  by (cases "ex (strip (lines ! idx)) g ctx") blast+

lemma run_loop_induct [consumes 0, case_names finished skip raise pause step]:
  assumes "\<And>idx g ctx. \<not> idx < length lines \<Longrightarrow> Q idx g ctx"
    and "\<And>idx g ctx. idx < length lines \<Longrightarrow> \<not> executable (lines ! idx) \<Longrightarrow>
           Q (Suc idx) g ctx \<Longrightarrow> Q idx g ctx"
    and "\<And>idx g ctx e g' ctx'. idx < length lines \<Longrightarrow> executable (lines ! idx) \<Longrightarrow>
           ex (strip (lines ! idx)) g ctx = ExecRaise e g' ctx' \<Longrightarrow> Q idx g ctx"
    and "\<And>idx g ctx g' ctx'. idx < length lines \<Longrightarrow> executable (lines ! idx) \<Longrightarrow>
           ex (strip (lines ! idx)) g ctx = ExecOk g' ctx' \<Longrightarrow> hits bps (Suc idx) \<Longrightarrow>
           Q idx g ctx"
    and "\<And>idx g ctx g' ctx'. idx < length lines \<Longrightarrow> executable (lines ! idx) \<Longrightarrow>
           ex (strip (lines ! idx)) g ctx = ExecOk g' ctx' \<Longrightarrow> \<not> hits bps (Suc idx) \<Longrightarrow>
           Q (Suc idx) g' ctx' \<Longrightarrow> Q idx g ctx"
  shows "Q idx g ctx"
proof (induction "length lines - idx" arbitrary: idx g ctx rule: less_induct)
  case (less idx g ctx)
  show ?case
  proof (cases rule: run_loop_cases [where idx = idx and lines = lines and ex = ex
        and g = g and ctx = ctx and bps = bps])
    case finished
    then show ?thesis by (rule assms(1))
  next
    case skip
    have "length lines - Suc idx < length lines - idx" using skip(1) by arith
    then have next_ok: "Q (Suc idx) g ctx" by (rule less)
    show ?thesis by (rule assms(2) [OF skip(1) skip(2) next_ok])
  next
    case (raise e g' ctx')
    show ?thesis by (rule assms(3) [OF raise])
  next
    case (pause g' ctx')
    show ?thesis by (rule assms(4) [OF pause])
  next
    case (step g' ctx')
    have "length lines - Suc idx < length lines - idx" using step(1) by arith
    then have next_ok: "Q (Suc idx) g' ctx'" by (rule less)
    show ?thesis by (rule assms(5) [OF step next_ok])
  qed
qed

lemma extend_range:
  assumes "\<not> P idx" and "\<forall>j. Suc idx \<le> j \<and> R j \<longrightarrow> \<not> P j"
  shows "\<forall>j. idx \<le> j \<and> R j \<longrightarrow> \<not> P (j::nat)"
proof (intro allI impI)
  fix j
  assume j: "idx \<le> j \<and> R j"
  show "\<not> P j"
  proof (cases "j = idx")
    case True
    with assms(1) show ?thesis by simp
  next
    case False
    with j have "Suc idx \<le> j \<and> R j" by simp
    with assms(2) show ?thesis by simp
  qed
qed

lemma run_loop_Paused:
  "run_loop ex lines bps idx g ctx = Paused i h c \<Longrightarrow>
     idx < i \<and> i \<le> length lines \<and> hits bps i \<and> executable (lines ! (i - 1)) \<and>
     (\<forall>j. idx \<le> j \<and> Suc j < i \<longrightarrow> \<not> (executable (lines ! j) \<and> hits bps (Suc j)))"
proof (induction idx g ctx rule: run_loop_induct [where lines = lines and ex = ex and bps = bps])
  case (finished idx g ctx)
  then show ?case by (simp add: run_loop_end)
next
  case (skip idx g ctx)
  then have ih: "Suc idx < i \<and> i \<le> length lines \<and> hits bps i \<and> executable (lines ! (i - 1)) \<and>
     (\<forall>j. Suc idx \<le> j \<and> Suc j < i \<longrightarrow> \<not> (executable (lines ! j) \<and> hits bps (Suc j)))"
    by (simp add: run_loop_skip)
  have here: "\<not> (executable (lines ! idx) \<and> hits bps (Suc idx))"
    using skip(2) by simp
  have later: "\<forall>j. Suc idx \<le> j \<and> Suc j < i \<longrightarrow> \<not> (executable (lines ! j) \<and> hits bps (Suc j))"
    using ih by simp
  have "\<forall>j. idx \<le> j \<and> Suc j < i \<longrightarrow> \<not> (executable (lines ! j) \<and> hits bps (Suc j))"
    by (rule extend_range [where P = "\<lambda>j. executable (lines ! j) \<and> hits bps (Suc j)"
          and R = "\<lambda>j. Suc j < i", OF here later])
  then show ?case using ih by simp
next
  case (raise idx g ctx e g' ctx')
  then show ?case by (simp add: run_loop_raise)
next
  case (pause idx g ctx g' ctx')
  then show ?case by (auto simp add: run_loop_pause)
next
  case (step idx g ctx g' ctx')
  then have ih: "Suc idx < i \<and> i \<le> length lines \<and> hits bps i \<and> executable (lines ! (i - 1)) \<and>
     (\<forall>j. Suc idx \<le> j \<and> Suc j < i \<longrightarrow> \<not> (executable (lines ! j) \<and> hits bps (Suc j)))"
    by (simp add: run_loop_step)
  have here: "\<not> (executable (lines ! idx) \<and> hits bps (Suc idx))"
    using step(4) by simp
  have later: "\<forall>j. Suc idx \<le> j \<and> Suc j < i \<longrightarrow> \<not> (executable (lines ! j) \<and> hits bps (Suc j))"
    using ih by simp
  have "\<forall>j. idx \<le> j \<and> Suc j < i \<longrightarrow> \<not> (executable (lines ! j) \<and> hits bps (Suc j))"
    by (rule extend_range [where P = "\<lambda>j. executable (lines ! j) \<and> hits bps (Suc j)"
          and R = "\<lambda>j. Suc j < i", OF here later])
  then show ?case using ih by simp
qed

lemma run_loop_Completed:
  "run_loop ex lines bps idx g ctx = Completed i h c \<Longrightarrow>
     idx \<le> i \<and> length lines \<le> i \<and>
     (\<forall>j. idx \<le> j \<and> j < length lines \<longrightarrow> \<not> (executable (lines ! j) \<and> hits bps (Suc j)))"
proof (induction idx g ctx rule: run_loop_induct [where lines = lines and ex = ex and bps = bps])
  case (finished idx g ctx)
  then show ?case by (auto simp add: run_loop_end)
next
  case (skip idx g ctx)
  then have ih: "Suc idx \<le> i \<and> length lines \<le> i \<and>
     (\<forall>j. Suc idx \<le> j \<and> j < length lines \<longrightarrow> \<not> (executable (lines ! j) \<and> hits bps (Suc j)))"
    by (simp add: run_loop_skip)
  have here: "\<not> (executable (lines ! idx) \<and> hits bps (Suc idx))"
    using skip(2) by simp
  have later: "\<forall>j. Suc idx \<le> j \<and> j < length lines \<longrightarrow> \<not> (executable (lines ! j) \<and> hits bps (Suc j))"
    using ih by simp
  have "\<forall>j. idx \<le> j \<and> j < length lines \<longrightarrow> \<not> (executable (lines ! j) \<and> hits bps (Suc j))"
    by (rule extend_range [where P = "\<lambda>j. executable (lines ! j) \<and> hits bps (Suc j)"
          and R = "\<lambda>j. j < length lines", OF here later])
  then show ?case using ih by simp
next
  case (raise idx g ctx e g' ctx')
  then show ?case by (simp add: run_loop_raise)
next
  case (pause idx g ctx g' ctx')
  then show ?case by (auto simp add: run_loop_pause)
next
  case (step idx g ctx g' ctx')
  then have ih: "Suc idx \<le> i \<and> length lines \<le> i \<and>
     (\<forall>j. Suc idx \<le> j \<and> j < length lines \<longrightarrow> \<not> (executable (lines ! j) \<and> hits bps (Suc j)))"
    by (simp add: run_loop_step)
  have here: "\<not> (executable (lines ! idx) \<and> hits bps (Suc idx))"
    using step(4) by simp
  have later: "\<forall>j. Suc idx \<le> j \<and> j < length lines \<longrightarrow> \<not> (executable (lines ! j) \<and> hits bps (Suc j))"
    using ih by simp
  have "\<forall>j. idx \<le> j \<and> j < length lines \<longrightarrow> \<not> (executable (lines ! j) \<and> hits bps (Suc j))"
    by (rule extend_range [where P = "\<lambda>j. executable (lines ! j) \<and> hits bps (Suc j)"
          and R = "\<lambda>j. j < length lines", OF here later])
  then show ?case using ih by simp
qed

lemma run_loop_Failed:
  "run_loop ex lines bps idx g ctx = Failed i e h c \<Longrightarrow>
     idx < i \<and> i \<le> length lines \<and> executable (lines ! (i - 1)) \<and>
     (\<exists>g0 c0. ex (strip (lines ! (i - 1))) g0 c0 = ExecRaise e h c)"
proof (induction idx g ctx rule: run_loop_induct [where lines = lines and ex = ex and bps = bps])
  case (finished idx g ctx)
  then show ?case by (simp add: run_loop_end)
next
  case (skip idx g ctx)
  then show ?case by (auto simp add: run_loop_skip)
next
  case (raise idx g ctx e' g' ctx')
  then have "i = Suc idx" and "ex (strip (lines ! idx)) g ctx = ExecRaise e h c"
    by (simp_all add: run_loop_raise)
  with raise(1,2) show ?case by auto
next
  case (pause idx g ctx g' ctx')
  then show ?case by (auto simp add: run_loop_pause)
next
  case (step idx g ctx g' ctx')
  then show ?case by (auto simp add: run_loop_step)
qed

section \<open>Splitting and dispatching a command line\<close>

lemma process_command_split:
  "py_split1 cmd = w # rest \<Longrightarrow>
   process_command ip s cmd a = dispatch ip s (lower w) (case rest of [] \<Rightarrow> [] | r # _ \<Rightarrow> r) a"
  by (simp add: process_command_def)

lemma dispatch_list_breakpoints:
  "dispatch ip s ''list_breakpoints'' args a = list_breakpoints s args"
  by (simp add: dispatch_def)

lemma dispatch_add_breakpoint:
  "dispatch ip s ''add_breakpoint'' args a = add_breakpoint s args"
  by (simp add: dispatch_def)

lemma dispatch_rmv_breakpoint:
  "dispatch ip s ''rmv_breakpoint'' args a = rmv_breakpoint s args"
  by (simp add: dispatch_def)

lemma dispatch_attach: "dispatch ip s ''attach'' args a = attach s args a"
  by (simp add: dispatch_def)

lemma dispatch_detach: "dispatch ip s ''detach'' args a = detach s a"
  by (simp add: dispatch_def)

lemma lower_ascii:
  "lower ''list_breakpoints'' = ''list_breakpoints''"
  "lower ''add_breakpoint'' = ''add_breakpoint''"
  "lower ''rmv_breakpoint'' = ''rmv_breakpoint''"
  "lower ''attach'' = ''attach''"
  "lower ''detach'' = ''detach''"
  "lower ''start'' = ''start''"
  "lower ''continue'' = ''continue''"
  by (simp_all add: lower_def lower_char_def upper_letters_def lower_letters_def)

lemma split1_list_demo:
  "py_split1 ''list_breakpoints demo'' = [''list_breakpoints'', ''demo'']"
  by (simp add: py_split1_def is_space_def)

lemma sorted_list_of_fset_empty: "sorted_list_of_fset ({||} :: int fset) = []"
  by (simp add: sorted_list_of_fset.rep_eq)

section \<open>Listing and changing breakpoints\<close>

text \<open>
  C3. For a program of the catalog, \<open>list_breakpoints\<close> is to return its breakpoint
  lines in sorted order, the empty sequence when none was ever added. The command looks
  the name up in \<open>self.breakpoints\<close>, not in \<open>self.programs\<close>: on the demo catalog,
  before any breakpoint command, \<open>list_breakpoints demo\<close> answers that the program
  \<open>demo\<close>, which is in the catalog, is not found.
\<close>

theorem list_breakpoints_known_program_not_found:
  "process_command ip (init_server demo_catalog) ''list_breakpoints demo'' a =
     (ErrNotFound ''demo'', init_server demo_catalog) \<and>
   map_of (programs (init_server demo_catalog :: 'v server)) ''demo'' = Some demo_text"
  by (simp add: process_command_split [OF split1_list_demo] lower_ascii
      dispatch_list_breakpoints list_breakpoints_def init_server_def demo_catalog_def)

text \<open>
  C4. For a program \<open>P\<close> of the catalog and a line token \<open>L\<close> that \<open>int\<close> accepts,
  \<open>add_breakpoint P L\<close> and \<open>rmv_breakpoint P L\<close> answer Busy exactly when \<open>P\<close> is in
  \<open>executing\<close> or in \<open>paused\<close>, leaving the server as it was; otherwise they succeed,
  and the line is added to, or removed from, the breakpoint set of \<open>P\<close>.
\<close>

theorem breakpoint_busy_rule:
  assumes "py_split1 cmd = [w, args]" and "py_split args = [P, L]"
    and "map_of (programs s) P = Some src" and "py_int L = Some n"
  shows "(lower w = ''add_breakpoint'' \<longrightarrow>
            process_command ip s cmd a =
              (if P \<in> executing s \<or> P \<in> paused s then (ErrBusy P, s)
               else (BreakpointSet L P,
                     s\<lparr>breakpoints := (breakpoints s)
                          (P \<mapsto> finsert n (case breakpoints s P of None \<Rightarrow> {||} | Some S \<Rightarrow> S))\<rparr>))) \<and>
         (lower w = ''rmv_breakpoint'' \<longrightarrow>
            process_command ip s cmd a =
              (if P \<in> executing s \<or> P \<in> paused s then (ErrBusy P, s)
               else (BreakpointRemoved L P,
                     s\<lparr>breakpoints := (breakpoints s)
                          (P \<mapsto> (case breakpoints s P of None \<Rightarrow> {||} | Some S \<Rightarrow> S) |-| {|n|})\<rparr>)))"
proof (intro conjI impI)
  assume "lower w = ''add_breakpoint''"
  then show "process_command ip s cmd a =
              (if P \<in> executing s \<or> P \<in> paused s then (ErrBusy P, s)
               else (BreakpointSet L P,
                     s\<lparr>breakpoints := (breakpoints s)
                          (P \<mapsto> finsert n (case breakpoints s P of None \<Rightarrow> {||} | Some S \<Rightarrow> S))\<rparr>))"
    using assms(2-4)
    by (auto simp add: process_command_split [OF assms(1)] dispatch_add_breakpoint
        add_breakpoint_def setdefault_def split: option.split)
next
  assume "lower w = ''rmv_breakpoint''"
  then show "process_command ip s cmd a =
              (if P \<in> executing s \<or> P \<in> paused s then (ErrBusy P, s)
               else (BreakpointRemoved L P,
                     s\<lparr>breakpoints := (breakpoints s)
                          (P \<mapsto> (case breakpoints s P of None \<Rightarrow> {||} | Some S \<Rightarrow> S) |-| {|n|})\<rparr>))"
    using assms(2-4)
    by (auto simp add: process_command_split [OF assms(1)] dispatch_rmv_breakpoint
        rmv_breakpoint_def setdefault_def split: option.split)
qed

theorem breakpoint_busy_rule_witness:
  "process_command stub (init_server demo_catalog) ''add_breakpoint demo 2'' alice =
     (BreakpointSet ''2'' ''demo'',
      (init_server demo_catalog)\<lparr>breakpoints := [''demo'' \<mapsto> {|2|}]\<rparr>) \<and>
   process_command stub ((init_server demo_catalog)\<lparr>paused := {''demo''}\<rparr>)
       ''rmv_breakpoint demo 2'' bob =
     (ErrBusy ''demo'', (init_server demo_catalog)\<lparr>paused := {''demo''}\<rparr>)"
proof -
  have a1: "py_split1 ''add_breakpoint demo 2'' = [''add_breakpoint'', ''demo 2'']"
    and r1: "py_split1 ''rmv_breakpoint demo 2'' = [''rmv_breakpoint'', ''demo 2'']"
    by (simp_all add: py_split1_def is_space_def)
  have 2: "py_split ''demo 2'' = [''demo'', ''2'']"
    by (simp add: py_split_def is_space_def)
  have 3: "map_of (programs (init_server demo_catalog :: int server)) ''demo'' = Some demo_text"
    and b3: "map_of (programs ((init_server demo_catalog :: int server)\<lparr>paused := {''demo''}\<rparr>))
               ''demo'' = Some demo_text"
    by (simp_all add: init_server_def demo_catalog_def)
  have 4: "py_int ''2'' = Some 2"
    by (simp add: py_int_def strip_def is_space_def is_digit_def digit_val_def)
  have "process_command stub (init_server demo_catalog) ''add_breakpoint demo 2'' alice =
     (BreakpointSet ''2'' ''demo'',
      (init_server demo_catalog)\<lparr>breakpoints := [''demo'' \<mapsto> {|2|}]\<rparr>)"
    using breakpoint_busy_rule [OF a1 2 3 4, of stub alice]
    by (simp add: lower_ascii) (simp add: init_server_def)
  moreover
  have "process_command stub ((init_server demo_catalog)\<lparr>paused := {''demo''}\<rparr>)
       ''rmv_breakpoint demo 2'' bob =
     (ErrBusy ''demo'', (init_server demo_catalog)\<lparr>paused := {''demo''}\<rparr>)"
    using breakpoint_busy_rule [OF r1 2 b3 4, of stub bob]
    by (simp add: lower_ascii)
  ultimately show ?thesis by simp
qed

text \<open>
  C10. When \<open>add_breakpoint P L\<close> is given, for a program \<open>P\<close> of the catalog that is
  neither executing nor paused, a line token \<open>L\<close> that \<open>int\<close> rejects, the answer is
  the error "Line must be integer", and yet \<open>P\<close> now has an entry, the empty set, in the
  breakpoint store when it had none: \<open>list_breakpoints P\<close>, which failed before, now
  returns the empty list.
\<close>

theorem add_breakpoint_invalid_line:
  assumes "py_split1 cmd = [w, args]" and "lower w = ''add_breakpoint''"
    and "py_split args = [P, L]" and "map_of (programs s) P = Some src"
    and "P \<notin> executing s" and "P \<notin> paused s"
    and "py_int L = None" and "breakpoints s P = None"
    and "py_split1 cmd' = [w', P]" and "lower w' = ''list_breakpoints''"
  shows "fst (process_command ip s cmd a) = ErrLineInt \<and>
         breakpoints (snd (process_command ip s cmd a)) = (breakpoints s)(P \<mapsto> {||}) \<and>
         fst (process_command ip s cmd' b) = ErrNotFound P \<and>
         fst (process_command ip (snd (process_command ip s cmd a)) cmd' b) = Breakpoints P []"
proof -
  have add: "process_command ip s cmd a =
               (ErrLineInt, s\<lparr>breakpoints := (breakpoints s)(P \<mapsto> {||})\<rparr>)"
    using assms(2-8)
    by (simp add: process_command_split [OF assms(1)] dispatch_add_breakpoint
        add_breakpoint_def setdefault_def)
  have before: "process_command ip s cmd' b = (ErrNotFound P, s)"
    using assms(8,10)
    by (simp add: process_command_split [OF assms(9)] dispatch_list_breakpoints
        list_breakpoints_def)
  have after: "fst (process_command ip (s\<lparr>breakpoints := (breakpoints s)(P \<mapsto> {||})\<rparr>) cmd' b)
                 = Breakpoints P []"
    using assms(10)
    by (simp add: process_command_split [OF assms(9)] dispatch_list_breakpoints
        list_breakpoints_def sorted_list_of_fset_empty)
  show ?thesis
    by (simp add: add before after)
qed

theorem add_breakpoint_invalid_line_witness:
  "fst (process_command stub (init_server demo_catalog) ''add_breakpoint demo 2x'' alice)
     = ErrLineInt \<and>
   breakpoints (snd (process_command stub (init_server demo_catalog)
                       ''add_breakpoint demo 2x'' alice))
     = (breakpoints (init_server demo_catalog :: int server))(''demo'' \<mapsto> {||}) \<and>
   fst (process_command stub (init_server demo_catalog) ''list_breakpoints demo'' bob)
     = ErrNotFound ''demo'' \<and>
   fst (process_command stub
          (snd (process_command stub (init_server demo_catalog)
                  ''add_breakpoint demo 2x'' alice))
          ''list_breakpoints demo'' bob) = Breakpoints ''demo'' []"
proof -
  have 1: "py_split1 ''add_breakpoint demo 2x'' = [''add_breakpoint'', ''demo 2x'']"
    by (simp add: py_split1_def is_space_def)
  have 3: "py_split ''demo 2x'' = [''demo'', ''2x'']"
    by (simp add: py_split_def is_space_def)
  have 4: "map_of (programs (init_server demo_catalog :: int server)) ''demo'' = Some demo_text"
    by (simp add: init_server_def demo_catalog_def)
  have 5: "''demo'' \<notin> executing (init_server demo_catalog :: int server)"
    and 6: "''demo'' \<notin> paused (init_server demo_catalog :: int server)"
    and 8: "breakpoints (init_server demo_catalog :: int server) ''demo'' = None"
    by (simp_all add: init_server_def)
  have 7: "py_int ''2x'' = None"
    by (simp add: py_int_def strip_def is_space_def is_digit_def digit_val_def)
  show ?thesis
    by (rule add_breakpoint_invalid_line
        [OF 1 lower_ascii(2) 3 4 5 6 7 8 split1_list_demo lower_ascii(1)])
qed

section \<open>Running a program: \<open>start\<close> and \<open>continue\<close>\<close>

lemma cont_Paused:
  assumes "states s P = Some (idx, r)" and "map_of (programs s) P = Some src"
    and "run_loop (py_exec ip) (splitlines src) (breakpoints s P) idx
             (module_globals s) (heap s r) = Paused i h c"
  shows "cont ip s P =
     (BreakpointAt (int i + 1)
        (if i < length (splitlines src) then Some (strip (splitlines src ! i)) else None),
      s\<lparr>module_globals := h, heap := (heap s)(r := c), states := (states s)(P \<mapsto> (i, r)),
        executing := executing s - {P}, paused := insert P (paused s)\<rparr>)"
  using assms by (simp add: cont_def Let_def)

lemma cont_Completed:
  assumes "states s P = Some (idx, r)" and "map_of (programs s) P = Some src"
    and "run_loop (py_exec ip) (splitlines src) (breakpoints s P) idx
             (module_globals s) (heap s r) = Completed i h c"
  shows "cont ip s P =
     (Finished P (filter (\<lambda>(k, v). \<not> startswith ''__'' k) c),
      s\<lparr>module_globals := h, heap := (heap s)(r := c), states := (states s)(P \<mapsto> (i, r)),
        executing := executing s - {P}, paused := paused s - {P}\<rparr>)"
  using assms by (simp add: cont_def Let_def)

lemma cont_Failed:
  assumes "states s P = Some (idx, r)" and "map_of (programs s) P = Some src"
    and "run_loop (py_exec ip) (splitlines src) (breakpoints s P) idx
             (module_globals s) (heap s r) = Failed i e h c"
  shows "cont ip s P =
     (ErrOnLine (int i) e,
      s\<lparr>module_globals := h, heap := (heap s)(r := c),
        executing := executing s - {P}, paused := paused s - {P}\<rparr>)"
  using assms by (simp add: cont_def Let_def)

lemma attached_SomeD:
  "attached s a = Some P \<Longrightarrow>
   \<exists>u. find (\<lambda>(p, u). u = a) (debugging s) = Some (P, u) \<and> P \<noteq> []"
  by (cases "find (\<lambda>(p, u). u = a) (debugging s)")
     (auto simp add: attached_def split: if_splits)

lemma dispatch_start:
  assumes "attached s a = Some P"
  shows "dispatch ip s ''start'' args a = run ip s P"
proof -
  from attached_SomeD [OF assms] obtain u
    where f: "find (\<lambda>(p, u). u = a) (debugging s) = Some (P, u)" and ne: "P \<noteq> []"
    by blast
  show ?thesis by (simp add: dispatch_def f ne)
qed

lemma dispatch_continue:
  assumes "attached s a = Some P"
  shows "dispatch ip s ''continue'' args a =
     (if P \<notin> paused s then (ErrNotPaused P, s) else cont ip s P)"
proof -
  from attached_SomeD [OF assms] obtain u
    where f: "find (\<lambda>(p, u). u = a) (debugging s) = Some (P, u)" and ne: "P \<noteq> []"
    by blast
  show ?thesis by (simp add: dispatch_def f ne)
qed

text \<open>
  C5. For a session attached to \<open>P\<close>, \<open>continue\<close> answers the error "not paused at a
  breakpoint", and changes nothing, unless \<open>P\<close> is in \<open>paused\<close>. When \<open>P\<close> is paused,
  the command runs the loop from the stored cursor \<open>idx\<close> on the stored context, the dict
  at the reference \<open>r\<close>, and on the module globals: the reply, the new stored cursor
  and the new content of the two dicts are those of \<open>run_loop\<close> started there.
\<close>

theorem continue_requires_paused:
  assumes "py_split1 cmd = w # rest" and "lower w = ''continue''"
    and "attached s a = Some P"
  shows "(P \<notin> paused s \<longrightarrow> process_command ip s cmd a = (ErrNotPaused P, s)) \<and>
         (P \<in> paused s \<and> states s P = Some (idx, r) \<and> map_of (programs s) P = Some src \<longrightarrow>
            (case run_loop (py_exec ip) (splitlines src) (breakpoints s P) idx
             (module_globals s) (heap s r) of
               Paused i h c \<Rightarrow>
                 fst (process_command ip s cmd a) =
                   BreakpointAt (int i + 1)
                     (if i < length (splitlines src) then Some (strip (splitlines src ! i))
                      else None) \<and>
                 states (snd (process_command ip s cmd a)) P = Some (i, r) \<and>
                 heap (snd (process_command ip s cmd a)) r = c \<and>
                 module_globals (snd (process_command ip s cmd a)) = h \<and>
                 P \<in> paused (snd (process_command ip s cmd a))
             | Completed i h c \<Rightarrow>
                 fst (process_command ip s cmd a) =
                   Finished P (filter (\<lambda>(k, v). \<not> startswith ''__'' k) c) \<and>
                 states (snd (process_command ip s cmd a)) P = Some (i, r) \<and>
                 heap (snd (process_command ip s cmd a)) r = c \<and>
                 module_globals (snd (process_command ip s cmd a)) = h \<and>
                 P \<notin> paused (snd (process_command ip s cmd a))
             | Failed i e h c \<Rightarrow>
                 fst (process_command ip s cmd a) = ErrOnLine (int i) e \<and>
                 states (snd (process_command ip s cmd a)) P = Some (idx, r) \<and>
                 heap (snd (process_command ip s cmd a)) r = c \<and>
                 module_globals (snd (process_command ip s cmd a)) = h \<and>
                 P \<notin> paused (snd (process_command ip s cmd a))))"
proof -
  have eq: "process_command ip s cmd a =
              (if P \<notin> paused s then (ErrNotPaused P, s) else cont ip s P)"
    using assms(2) by (simp add: process_command_split [OF assms(1)] dispatch_continue [OF assms(3)])
  show ?thesis
  proof (intro conjI impI)
    assume "P \<notin> paused s"
    then show "process_command ip s cmd a = (ErrNotPaused P, s)" by (simp add: eq)
  next
    assume h: "P \<in> paused s \<and> states s P = Some (idx, r) \<and> map_of (programs s) P = Some src"
    then have st: "states s P = Some (idx, r)" and pr: "map_of (programs s) P = Some src"
      and eq': "process_command ip s cmd a = cont ip s P"
      by (simp_all add: eq)
    show "case run_loop (py_exec ip) (splitlines src) (breakpoints s P) idx
             (module_globals s) (heap s r) of
               Paused i h c \<Rightarrow>
                 fst (process_command ip s cmd a) =
                   BreakpointAt (int i + 1)
                     (if i < length (splitlines src) then Some (strip (splitlines src ! i))
                      else None) \<and>
                 states (snd (process_command ip s cmd a)) P = Some (i, r) \<and>
                 heap (snd (process_command ip s cmd a)) r = c \<and>
                 module_globals (snd (process_command ip s cmd a)) = h \<and>
                 P \<in> paused (snd (process_command ip s cmd a))
             | Completed i h c \<Rightarrow>
                 fst (process_command ip s cmd a) =
                   Finished P (filter (\<lambda>(k, v). \<not> startswith ''__'' k) c) \<and>
                 states (snd (process_command ip s cmd a)) P = Some (i, r) \<and>
                 heap (snd (process_command ip s cmd a)) r = c \<and>
                 module_globals (snd (process_command ip s cmd a)) = h \<and>
                 P \<notin> paused (snd (process_command ip s cmd a))
             | Failed i e h c \<Rightarrow>
                 fst (process_command ip s cmd a) = ErrOnLine (int i) e \<and>
                 states (snd (process_command ip s cmd a)) P = Some (idx, r) \<and>
                 heap (snd (process_command ip s cmd a)) r = c \<and>
                 module_globals (snd (process_command ip s cmd a)) = h \<and>
                 P \<notin> paused (snd (process_command ip s cmd a))"
    proof (cases "run_loop (py_exec ip) (splitlines src) (breakpoints s P) idx
             (module_globals s) (heap s r)")
      case (Paused i h c)
      then show ?thesis by (simp add: eq' cont_Paused [OF st pr Paused])
    next
      case (Completed i h c)
      then show ?thesis by (simp add: eq' cont_Completed [OF st pr Completed])
    next
      case (Failed i e h c)
      then show ?thesis using st by (simp add: eq' cont_Failed [OF st pr Failed])
    qed
  qed
qed

text \<open>
  C7, amended. When \<open>exec\<close> raises an exception on a statement during the run loop,
  the reply is "Error on line \<open>i\<close>" with the message of the exception, \<open>i\<close> being the
  number of the line of that statement; the program is neither executing nor paused
  afterwards; and \<open>states\<close> is not touched, so the stored cursor is the one the loop
  started from, which is not past the failing line. That is all: the server is left as it
  was before, with the two markers of the program removed and the two dicts as the
  statements left them. No status and no line number is stored.
\<close>

theorem interpreter_failure:
  assumes "states s P = Some (idx, r)" and "map_of (programs s) P = Some src"
    and "run_loop (py_exec ip) (splitlines src) (breakpoints s P) idx
             (module_globals s) (heap s r) = Failed i e h c"
  shows "cont ip s P =
           (ErrOnLine (int i) e,
            s\<lparr>module_globals := h, heap := (heap s)(r := c),
              executing := executing s - {P}, paused := paused s - {P}\<rparr>) \<and>
         P \<notin> executing (snd (cont ip s P)) \<and> P \<notin> paused (snd (cont ip s P)) \<and>
         states (snd (cont ip s P)) = states s \<and>
         states (snd (cont ip s P)) P = Some (idx, r) \<and> idx < i \<and>
         i \<le> length (splitlines src) \<and> executable (splitlines src ! (i - 1)) \<and>
         (\<exists>g0 c0. py_exec ip (strip (splitlines src ! (i - 1))) g0 c0 = ExecRaise e h c)"
  using run_loop_Failed [OF assms(3)] assms(1)
  by (simp add: cont_Failed [OF assms])

section \<open>Invariants of the reachable states\<close>

lemma consistent_init:
  "distinct (map fst progs) \<Longrightarrow> consistent ((init_server progs)\<lparr>module_globals := g0\<rparr>)"
  by (simp add: consistent_def init_server_def)

lemma consistent_frame:
  assumes "consistent s"
    and "programs s' = programs s" and "debugging s' = debugging s"
    and "contexts s' = contexts s" and "next_ref s' = next_ref s"
    and "\<And>q i r. states s' q = Some (i, r) \<Longrightarrow> \<exists>j. states s q = Some (j, r)"
    and "dom (states s) \<subseteq> dom (states s')"
  shows "consistent s'"
  unfolding consistent_def
proof (intro conjI allI impI)
  show "distinct (map fst (programs s'))" "distinct (map fst (debugging s'))"
    "distinct (map snd (debugging s'))" "[] \<notin> fst ` set (debugging s')"
    "fst ` set (debugging s') \<subseteq> fst ` set (programs s')"
    using assms(1-3) by (simp_all add: consistent_def)
next
  have "fst ` set (debugging s) \<subseteq> dom (states s)"
    using assms(1) by (simp add: consistent_def)
  with assms(7) show "fst ` set (debugging s') \<subseteq> dom (states s')"
    by (auto simp add: assms(3))
next
  fix p r assume "contexts s' p = Some r"
  with assms(1,4,5) show "r < next_ref s'" by (simp add: consistent_def)
next
  fix p i r assume "states s' p = Some (i, r)"
  from assms(6) [OF this] obtain j where "states s p = Some (j, r)" ..
  with assms(1,5) show "r < next_ref s'" unfolding consistent_def by auto
qed

lemma cont_frame:
  "programs (snd (cont ip s P)) = programs s \<and>
   debugging (snd (cont ip s P)) = debugging s \<and>
   contexts (snd (cont ip s P)) = contexts s \<and>
   next_ref (snd (cont ip s P)) = next_ref s \<and>
   breakpoints (snd (cont ip s P)) = breakpoints s \<and>
   clients (snd (cont ip s P)) = clients s"
  by (simp add: cont_def Let_def split: option.split prod.split outcome.split)

lemma cont_states:
  "states (snd (cont ip s P)) q = Some (i, r) \<Longrightarrow> \<exists>j. states s q = Some (j, r)"
  by (simp add: cont_def Let_def split: option.splits prod.splits outcome.splits if_splits)

lemma cont_states_dom: "dom (states s) \<subseteq> dom (states (snd (cont ip s P)))"
  by (auto simp add: cont_def Let_def split: option.splits prod.splits outcome.splits if_splits)

lemma consistent_cont: "consistent s \<Longrightarrow> consistent (snd (cont ip s P))"
  by (rule consistent_frame [where s = s]) (simp_all add: cont_frame cont_states cont_states_dom)


lemma consistent_alloc:
  assumes "consistent s"
  shows "consistent (s\<lparr>executing := E, paused := Q,
           contexts := (contexts s)(P \<mapsto> next_ref s),
           heap := H, next_ref := Suc (next_ref s),
           states := (states s)(P \<mapsto> (0, next_ref s))\<rparr>)"
  using assms unfolding consistent_def
  by (auto simp add: less_Suc_eq split: if_splits)

lemma consistent_run: "consistent s \<Longrightarrow> consistent (snd (run ip s P))"
  unfolding run_def Let_def
  by (rule consistent_cont) (rule consistent_alloc)

lemma consistent_breakpoints:
  "consistent s \<Longrightarrow> consistent (s\<lparr>breakpoints := B\<rparr>)"
  by (simp add: consistent_def)

lemma consistent_heap:
  "consistent s \<Longrightarrow> consistent (s\<lparr>module_globals := G, heap := H\<rparr>)"
  by (simp add: consistent_def)

lemma consistent_clients:
  "consistent s \<Longrightarrow> consistent (s\<lparr>clients := C\<rparr>)"
  by (simp add: consistent_def)

lemma consistent_list_breakpoints:
  "consistent s \<Longrightarrow> consistent (snd (list_breakpoints s args))"
  by (simp add: list_breakpoints_def split: option.split)

lemma consistent_add_breakpoint:
  "consistent s \<Longrightarrow> consistent (snd (add_breakpoint s args))"
  by (simp add: add_breakpoint_def Let_def consistent_breakpoints
      split: list.split option.split)

lemma consistent_rmv_breakpoint:
  "consistent s \<Longrightarrow> consistent (snd (rmv_breakpoint s args))"
  by (simp add: rmv_breakpoint_def Let_def consistent_breakpoints
      split: list.split option.split)

lemma consistent_get_var: "consistent s \<Longrightarrow> consistent (snd (get_var s P args))"
  by (simp add: get_var_def Let_def split: option.split)

lemma consistent_set_var: "consistent s \<Longrightarrow> consistent (snd (set_var ip s P args))"
  by (simp add: set_var_def consistent_heap
      split: list.split option.split eval_result.split)

lemma find_session_None:
  "find (\<lambda>(p, u). u = a) xs = None \<longleftrightarrow> a \<notin> snd ` set xs"
  by (induction xs) auto

lemma find_session_Some:
  "find (\<lambda>(p, u). u = a) xs = Some (P, u) \<Longrightarrow> u = a \<and> (P, a) \<in> set xs"
  by (induction xs) (auto split: if_splits)

lemma map_of_None_keys: "map_of xs k = None \<longleftrightarrow> k \<notin> fst ` set xs"
  by (simp add: map_of_eq_None_iff)

lemma attach_NotFound:
  "args = [] \<or> args \<notin> fst ` set (programs s) \<Longrightarrow> attach s args a = (ErrNotFound args, s)"
  by (auto simp add: attach_def map_of_None_keys)

lemma attach_AlreadyDebugged:
  "args \<noteq> [] \<Longrightarrow> args \<in> fst ` set (programs s) \<Longrightarrow> args \<in> fst ` set (debugging s) \<Longrightarrow>
   attach s args a = (ErrAlreadyDebugged args, s)"
  using map_of_None_keys [of "programs s" args] map_of_None_keys [of "debugging s" args]
  by (simp add: attach_def)

lemma attach_SessionBusy:
  "args \<noteq> [] \<Longrightarrow> args \<in> fst ` set (programs s) \<Longrightarrow> args \<notin> fst ` set (debugging s) \<Longrightarrow>
   find (\<lambda>(p, u). u = a) (debugging s) = Some (q, u) \<Longrightarrow>
   attach s args a = (ErrSessionBusy q, s)"
  using map_of_None_keys [of "programs s" args] map_of_None_keys [of "debugging s" args]
  by (simp add: attach_def)

lemma attach_Attached:
  "args \<noteq> [] \<Longrightarrow> args \<in> fst ` set (programs s) \<Longrightarrow> args \<notin> fst ` set (debugging s) \<Longrightarrow>
   a \<notin> snd ` set (debugging s) \<Longrightarrow>
   attach s args a =
     (Attached args,
      if states s args = None
      then s\<lparr>debugging := debugging s @ [(args, a)],
             contexts := (contexts s)(args \<mapsto> next_ref s),
             heap := (heap s)(next_ref s := []),
             next_ref := Suc (next_ref s),
             states := (states s)(args \<mapsto> (0, next_ref s))\<rparr>
      else s\<lparr>debugging := debugging s @ [(args, a)]\<rparr>)"
  using map_of_None_keys [of "programs s" args] map_of_None_keys [of "debugging s" args]
    find_session_None [of a "debugging s"]
  by (simp add: attach_def Let_def)

lemma attach_cases [consumes 0, case_names notfound already busy attached]:
  obtains
    (notfound) "args = [] \<or> args \<notin> fst ` set (programs s)"
  | (already) "args \<noteq> []" "args \<in> fst ` set (programs s)" "args \<in> fst ` set (debugging s)"
  | (busy) q u where "args \<noteq> []" "args \<in> fst ` set (programs s)"
      "args \<notin> fst ` set (debugging s)" "find (\<lambda>(p, u). u = a) (debugging s) = Some (q, u)"
  | (attached) "args \<noteq> []" "args \<in> fst ` set (programs s)"
      "args \<notin> fst ` set (debugging s)" "a \<notin> snd ` set (debugging s)"
proof (cases "find (\<lambda>(p, u). u = a) (debugging s)")
  case None
  then have "a \<notin> snd ` set (debugging s)" by (simp add: find_session_None)
  then show ?thesis using that(1,2,4) by blast
next
  case (Some qu)
  then obtain q u where "find (\<lambda>(p, u). u = a) (debugging s) = Some (q, u)"
    by (cases qu) simp
  then show ?thesis using that(1,2,3) by blast
qed

lemma consistent_attach:
  assumes "consistent s"
  shows "consistent (snd (attach s args a))"
proof (cases rule: attach_cases [where args = args and s = s and a = a])
  case notfound
  then show ?thesis using assms by (simp add: attach_NotFound)
next
  case already
  then show ?thesis using assms by (simp add: attach_AlreadyDebugged)
next
  case (busy q u)
  then show ?thesis using assms by (simp add: attach_SessionBusy)
next
  case attached
  show ?thesis
  proof (cases "states s args = None")
    case True
    with attached assms show ?thesis
      unfolding consistent_def
      by (auto simp add: attach_Attached less_Suc_eq split: if_splits)
  next
    case False
    with attached assms show ?thesis
      unfolding consistent_def
      by (auto simp add: attach_Attached split: if_splits)
  qed
qed


lemma delete_filter: "AList.delete k xs = filter (\<lambda>(p, u). p \<noteq> k) xs"
  by (induction xs) auto

lemma consistent_release:
  assumes "consistent s"
  shows "consistent (release s p)"
proof -
  have "set (AList.delete p (debugging s)) \<subseteq> set (debugging s)"
    by (auto simp add: delete_filter)
  then have k: "fst ` set (AList.delete p (debugging s)) \<subseteq> fst ` set (debugging s)"
    by (rule image_mono)
  have f1: "[] \<notin> fst ` set (debugging s)"
    and f2: "fst ` set (debugging s) \<subseteq> fst ` set (programs s)"
    and f3: "fst ` set (debugging s) \<subseteq> dom (states s)"
    using assms by (simp_all add: consistent_def)
  have g1: "[] \<notin> fst ` set (AList.delete p (debugging s))"
    using k f1 by blast
  have g2: "fst ` set (AList.delete p (debugging s)) \<subseteq> fst ` set (programs s)"
    using k f2 by (rule subset_trans)
  have g3: "fst ` set (AList.delete p (debugging s)) \<subseteq> dom (states s)"
    using k f3 by (rule subset_trans)
  have d1: "distinct (map fst (AList.delete p (debugging s)))"
    using assms by (simp add: consistent_def distinct_delete)
  have d2: "distinct (map snd (AList.delete p (debugging s)))"
    using assms by (simp add: consistent_def delete_filter distinct_map_filter)
  show ?thesis
    using assms d1 d2 g1 g2 g3 by (simp add: consistent_def release_def)
qed

lemma consistent_detach: "consistent s \<Longrightarrow> consistent (snd (detach s a))"
  by (simp add: detach_def consistent_release split: option.split prod.split)

lemma consistent_cleanup_loop:
  "consistent s \<Longrightarrow> consistent (cleanup_loop xs a s)"
  by (induction xs a s rule: cleanup_loop.induct) (simp_all add: consistent_release)

lemma consistent_disconnect: "consistent s \<Longrightarrow> consistent (disconnect s a)"
  by (simp add: disconnect_def consistent_cleanup_loop consistent_clients)

lemma consistent_connect: "consistent s \<Longrightarrow> consistent (connect s a)"
  by (simp add: connect_def consistent_clients)

lemma consistent_dispatch:
  assumes "consistent s"
  shows "consistent (snd (dispatch ip s name args a))"
proof -
  have rest: "consistent (snd (case find (\<lambda>(p, u). u = a) (debugging s) of
              None \<Rightarrow> (ErrNeedsAttachment name, s)
            | Some (program, u) \<Rightarrow>
                if program = [] then (ErrNeedsAttachment name, s)
                else if name = ''start'' then run ip s program
                else if name = ''continue'' then
                  (if program \<notin> paused s then (ErrNotPaused program, s)
                   else cont ip s program)
                else if name = ''get_var'' then get_var s program args
                else if name = ''set_var'' then set_var ip s program args
                else (ErrUnknown name, s)))"
    using assms
    by (simp add: consistent_run consistent_cont consistent_get_var consistent_set_var
        split: option.split prod.split)
  show ?thesis
    unfolding dispatch_def
    using assms rest
    by (simp add: consistent_list_breakpoints consistent_add_breakpoint
        consistent_rmv_breakpoint consistent_attach consistent_detach)
qed

lemma consistent_process_command:
  "consistent s \<Longrightarrow> consistent (snd (process_command ip s cmd a))"
  by (simp add: process_command_def consistent_dispatch split: list.split)

lemma reachable_consistent: "reachable ip s \<Longrightarrow> consistent s"
  by (induction rule: reachable.induct)
     (simp_all add: consistent_init consistent_process_command consistent_connect
        consistent_disconnect)

section \<open>The demo session, step by step\<close>

lemmas string_defs = strip_def is_space_def startswith_def py_split_def

lemmas stub_defs = stub_def stub_exec_def stub_eval_def atom_def py_int_def is_digit_def
  digit_val_def

lemma demo_lines: "splitlines demo_text = [''x = 1'', ''y = 2'', ''x = x + y'']"
  by (simp add: demo_text_def splitlines_def is_linebreak_def)

lemma stub_x1: "stub_exec ''x = 1'' g [] = ExecOk g [(''x'', 1)]"
  by (simp add: string_defs stub_defs)

lemma stub_y2: "stub_exec ''y = 2'' g [(''x'', 1)] = ExecOk g [(''x'', 1), (''y'', 2)]"
  by (simp add: string_defs stub_defs)

lemma stub_xy:
  "stub_exec ''x = x + y'' g [(''x'', 1), (''y'', 2)] = ExecOk g [(''x'', 3), (''y'', 2)]"
  by (simp add: string_defs stub_defs)

lemma strip_demo:
  "strip ''x = 1'' = ''x = 1''" "strip ''y = 2'' = ''y = 2''"
  "strip ''x = x + y'' = ''x = x + y''"
  by (simp_all add: string_defs)

lemmas run_loop_unfold =
  run_loop.simps [of _ _ _ _ _ "[]"] run_loop.simps [of _ _ _ _ _ "_ # _"]

lemma run_demo_free:
  "run_loop stub_exec [''x = 1'', ''y = 2'', ''x = x + y''] None 0 g [] =
     Completed 3 g [(''x'', 3), (''y'', 2)]"
  by (simp add: run_loop_unfold strip_demo stub_x1 stub_y2 stub_xy startswith_def)

lemma run_demo_bp2:
  "run_loop stub_exec [''x = 1'', ''y = 2'', ''x = x + y''] (Some {|2|}) 0 g [] =
     Paused 1 g [(''x'', 1)]"
  by (simp add: run_loop_unfold strip_demo stub_x1 startswith_def)

lemma run_demo_bp2_resume:
  "run_loop stub_exec [''x = 1'', ''y = 2'', ''x = x + y''] (Some {|2|}) (Suc 0) g
       [(''x'', 1)] =
     Completed 3 g [(''x'', 3), (''y'', 2)]"
  by (simp add: run_loop_unfold strip_demo stub_y2 stub_xy startswith_def)

lemma run_demo_bp1:
  "run_loop stub_exec [''x = 1'', ''y = 2'', ''x = x + y''] (Some {|1|}) 0 g [] =
     Completed 3 g [(''x'', 3), (''y'', 2)]"
  by (simp add: run_loop_unfold strip_demo stub_x1 stub_y2 stub_xy startswith_def)

lemma split1_words:
  "py_split1 ''attach demo'' = [''attach'', ''demo'']"
  "py_split1 ''attach other'' = [''attach'', ''other'']"
  "py_split1 ''attach nosuch'' = [''attach'', ''nosuch'']"
  "py_split1 ''detach'' = [''detach'']"
  "py_split1 ''start'' = [''start'']"
  "py_split1 ''continue'' = [''continue'']"
  "py_split1 ''add_breakpoint demo 2'' = [''add_breakpoint'', ''demo 2'']"
  "py_split1 ''add_breakpoint demo 1'' = [''add_breakpoint'', ''demo 1'']"
  by (simp_all add: py_split1_def is_space_def)

lemma alice_bob: "alice \<noteq> bob"
  by (simp add: alice_def bob_def)

lemma attach_demo:
  "process_command stub ((init_server demo_catalog)\<lparr>breakpoints := B\<rparr>) ''attach demo'' alice =
     (Attached ''demo'', demo_attached B)"
  by (simp add: process_command_split [OF split1_words(1)] lower_ascii dispatch_attach
      attach_def init_server_def demo_catalog_def demo_attached_def)

lemma attached_demo: "attached (demo_attached B) alice = Some ''demo''"
  by (simp add: attached_def demo_attached_def)

lemma start_demo_free:
  "process_command stub (demo_attached Map.empty) ''start'' alice =
     (Finished ''demo'' [(''x'', 3), (''y'', 2)],
      (demo_attached Map.empty)\<lparr>contexts := [''demo'' \<mapsto> 1],
        states := [''demo'' \<mapsto> (3, 1)],
        heap := (\<lambda>r. [])(0 := [], 1 := [(''x'', 3), (''y'', 2)]), next_ref := 2\<rparr>)"
proof -
  have "process_command stub (demo_attached Map.empty) ''start'' alice =
          run stub (demo_attached Map.empty) ''demo''"
    by (simp add: process_command_split [OF split1_words(5)] lower_ascii
        dispatch_start [OF attached_demo])
  also have "\<dots> = (Finished ''demo'' [(''x'', 3), (''y'', 2)],
      (demo_attached Map.empty)\<lparr>contexts := [''demo'' \<mapsto> 1],
        states := [''demo'' \<mapsto> (3, 1)],
        heap := (\<lambda>r. [])(0 := [], 1 := [(''x'', 3), (''y'', 2)]), next_ref := 2\<rparr>)"
    by (simp add: run_def cont_def Let_def demo_attached_def init_server_def
        demo_catalog_def demo_lines run_demo_free stub_def startswith_def)
  finally show ?thesis .
qed

lemma start_demo_bp2:
  "process_command stub (demo_attached [''demo'' \<mapsto> {|2|}]) ''start'' alice =
     (BreakpointAt 2 (Some ''y = 2''), demo_paused)"
proof -
  have "process_command stub (demo_attached [''demo'' \<mapsto> {|2|}]) ''start'' alice =
          run stub (demo_attached [''demo'' \<mapsto> {|2|}]) ''demo''"
    by (simp add: process_command_split [OF split1_words(5)] lower_ascii
        dispatch_start [OF attached_demo])
  also have "\<dots> = (BreakpointAt 2 (Some ''y = 2''), demo_paused)"
    by (simp add: run_def cont_def Let_def demo_attached_def demo_paused_def init_server_def
        demo_catalog_def demo_lines run_demo_bp2 stub_def strip_demo)
  finally show ?thesis .
qed

lemma attached_paused: "attached demo_paused alice = Some ''demo''"
  by (simp add: attached_def demo_paused_def)

lemma continue_demo_bp2:
  "process_command stub demo_paused ''continue'' alice =
     (Finished ''demo'' [(''x'', 3), (''y'', 2)],
      demo_paused\<lparr>paused := {}, states := [''demo'' \<mapsto> (3, 1)],
        heap := (\<lambda>r. [])(0 := [], 1 := [(''x'', 3), (''y'', 2)])\<rparr>)"
proof -
  have "process_command stub demo_paused ''continue'' alice = cont stub demo_paused ''demo''"
    by (simp add: process_command_split [OF split1_words(6)] lower_ascii
        dispatch_continue [OF attached_paused]) (simp add: demo_paused_def)
  also have "\<dots> = (Finished ''demo'' [(''x'', 3), (''y'', 2)],
      demo_paused\<lparr>paused := {}, states := [''demo'' \<mapsto> (3, 1)],
        heap := (\<lambda>r. [])(0 := [], 1 := [(''x'', 3), (''y'', 2)])\<rparr>)"
    by (simp add: cont_def Let_def demo_paused_def init_server_def
        demo_catalog_def demo_lines run_demo_bp2_resume stub_def startswith_def)
  finally show ?thesis .
qed

lemma reachable_demo_attached: "reachable stub (demo_attached Map.empty)"
proof -
  have "reachable stub ((init_server demo_catalog)\<lparr>module_globals := []\<rparr> :: int server)"
    by (rule reachable.start) (simp add: demo_catalog_def)
  then have "reachable stub (init_server demo_catalog :: int server)"
    by (simp add: init_server_def)
  from reachable.command [OF this, of "''attach demo''" alice]
  show ?thesis
    using attach_demo [of Map.empty] by (simp add: init_server_def)
qed

section \<open>Two more sessions: a statement that fails, and a binding in the module globals\<close>

lemma split1_more:
  "py_split1 ''add_breakpoint broken 2'' = [''add_breakpoint'', ''broken 2'']"
  "py_split1 ''attach broken'' = [''attach'', ''broken'']"
  "py_split1 ''add_breakpoint leak 2'' = [''add_breakpoint'', ''leak 2'']"
  "py_split1 ''attach leak'' = [''attach'', ''leak'']"
  "py_split1 ''set_var y g'' = [''set_var'', ''y g'']"
  "py_split1 ''y g'' = [''y'', ''g'']"
  by (simp_all add: py_split1_def is_space_def)

lemma lower_set_var: "lower ''set_var'' = ''set_var''"
  by (simp add: lower_def lower_char_def upper_letters_def lower_letters_def)

lemma dispatch_set_var:
  assumes "attached s a = Some P"
  shows "dispatch ip s ''set_var'' args a = set_var ip s P args"
proof -
  from attached_SomeD [OF assms] obtain u
    where f: "find (\<lambda>(p, u). u = a) (debugging s) = Some (P, u)" and ne: "P \<noteq> []"
    by blast
  show ?thesis by (simp add: dispatch_def f ne)
qed

lemma py_eval_stub: "py_eval stub = stub_eval"
  by (simp add: stub_def)

lemma broken_lines: "splitlines broken_text = [''q = 1'', ''x = y'']"
  by (simp add: broken_text_def splitlines_def is_linebreak_def)

lemma run_broken:
  "run_loop stub_exec [''q = 1'', ''x = y''] (Some {|2|}) 0 g [] = Paused 1 g [(''q'', 1)]"
  by (simp add: run_loop_unfold string_defs stub_defs)

lemma run_broken_resume:
  "run_loop stub_exec [''q = 1'', ''x = y''] (Some {|2|}) (Suc 0) [] [(''q'', 1)] =
     Failed 2 (name_error ''y'') [] [(''q'', 1)]"
  by (simp add: run_loop_unfold string_defs stub_defs)

lemma broken_add_breakpoint:
  "process_command stub (init_server broken_catalog) ''add_breakpoint broken 2'' alice =
     (BreakpointSet ''2'' ''broken'',
      (init_server broken_catalog)\<lparr>breakpoints := [''broken'' \<mapsto> {|2|}]\<rparr>)"
  by (simp add: process_command_split [OF split1_more(1)] lower_ascii dispatch_add_breakpoint
      add_breakpoint_def setdefault_def string_defs py_int_def is_digit_def digit_val_def
      init_server_def broken_catalog_def)

lemma broken_attach:
  "process_command stub ((init_server broken_catalog)\<lparr>breakpoints := [''broken'' \<mapsto> {|2|}]\<rparr>)
     ''attach broken'' alice = (Attached ''broken'', broken_attached)"
  by (simp add: process_command_split [OF split1_more(2)] lower_ascii dispatch_attach
      attach_def init_server_def broken_catalog_def broken_attached_def)

lemma attached_broken:
  "attached broken_attached alice = Some ''broken''"
  "attached broken_paused alice = Some ''broken''"
  by (simp_all add: attached_def broken_attached_def broken_paused_def)

lemma broken_start:
  "process_command stub broken_attached ''start'' alice =
     (BreakpointAt 2 (Some ''x = y''), broken_paused)"
proof -
  have "process_command stub broken_attached ''start'' alice =
          run stub broken_attached ''broken''"
    by (simp add: process_command_split [OF split1_words(5)] lower_ascii
        dispatch_start [OF attached_broken(1)])
  also have "\<dots> = (BreakpointAt 2 (Some ''x = y''), broken_paused)"
    by (simp add: run_def cont_def Let_def broken_attached_def broken_paused_def init_server_def
        broken_catalog_def broken_lines run_broken stub_def string_defs)
  finally show ?thesis .
qed

lemma broken_continue:
  "process_command stub broken_paused ''continue'' alice =
     (ErrOnLine 2 (name_error ''y''), broken_paused\<lparr>paused := {}\<rparr>)"
proof -
  have "process_command stub broken_paused ''continue'' alice =
          cont stub broken_paused ''broken''"
    by (simp add: process_command_split [OF split1_words(6)] lower_ascii
        dispatch_continue [OF attached_broken(2)]) (simp add: broken_paused_def)
  also have "\<dots> = (ErrOnLine 2 (name_error ''y''), broken_paused\<lparr>paused := {}\<rparr>)"
    by (simp add: cont_def Let_def broken_paused_def init_server_def broken_catalog_def
        broken_lines run_broken_resume stub_def)
  finally show ?thesis .
qed

lemma broken_detach:
  "process_command stub broken_paused ''detach'' alice =
     (Detached ''broken'', release broken_paused ''broken'')"
  by (simp add: process_command_split [OF split1_words(4)] lower_ascii dispatch_detach
      detach_def broken_paused_def)

lemma broken_reattach:
  "process_command stub (release broken_paused ''broken'') ''attach broken'' alice =
     (Attached ''broken'', broken_paused\<lparr>paused := {}\<rparr>)"
  by (simp add: process_command_split [OF split1_more(2)] lower_ascii dispatch_attach
      attach_def release_def broken_paused_def init_server_def broken_catalog_def)

lemma broken_fields:
  "states broken_paused ''broken'' = Some (Suc 0, Suc 0)"
  "map_of (programs broken_paused) ''broken'' = Some broken_text"
  "breakpoints broken_paused ''broken'' = Some {|2|}"
  "heap broken_paused (Suc 0) = [(''q'', 1)]"
  "module_globals broken_paused = []"
  "executing broken_paused = {}"
  "paused broken_paused = {''broken''}"
  by (simp_all add: broken_paused_def init_server_def broken_catalog_def)

lemma leak_lines: "splitlines leak_text = [''x = 1'', ''global g; g = 7'']"
  by (simp add: leak_text_def splitlines_def is_linebreak_def)

lemma run_leak:
  "run_loop stub_exec [''x = 1'', ''global g; g = 7''] (Some {|2|}) 0 g [] =
     Paused 1 g [(''x'', 1)]"
  by (simp add: run_loop_unfold string_defs stub_defs)

lemma run_leak_resume:
  "run_loop stub_exec [''x = 1'', ''global g; g = 7''] (Some {|2|}) (Suc 0) []
       [(''x'', 1)] =
     Completed 2 [(''g'', 7)] [(''x'', 1)]"
  by (simp add: run_loop_unfold string_defs stub_defs)

lemma stub_eval_g:
  "stub_eval ''g'' [] [(''x'', 1)] = EvalRaise (name_error ''g'') [] [(''x'', 1)]"
  "stub_eval ''g'' [(''g'', 7)] [(''x'', 1)] = EvalOk 7 [(''g'', 7)] [(''x'', 1)]"
  by (simp_all add: string_defs stub_defs)

lemma leak_add_breakpoint:
  "process_command stub (init_server leak_catalog) ''add_breakpoint leak 2'' alice =
     (BreakpointSet ''2'' ''leak'',
      (init_server leak_catalog)\<lparr>breakpoints := [''leak'' \<mapsto> {|2|}]\<rparr>)"
  by (simp add: process_command_split [OF split1_more(3)] lower_ascii dispatch_add_breakpoint
      add_breakpoint_def setdefault_def string_defs py_int_def is_digit_def digit_val_def
      init_server_def leak_catalog_def)

lemma leak_attach:
  "process_command stub ((init_server leak_catalog)\<lparr>breakpoints := [''leak'' \<mapsto> {|2|}]\<rparr>)
     ''attach leak'' alice = (Attached ''leak'', leak_attached)"
  by (simp add: process_command_split [OF split1_more(4)] lower_ascii dispatch_attach
      attach_def init_server_def leak_catalog_def leak_attached_def)

lemma attached_leak:
  "attached leak_attached alice = Some ''leak''"
  "attached leak_paused alice = Some ''leak''"
  "attached leak_finished alice = Some ''leak''"
  "attached leak_restarted alice = Some ''leak''"
  by (simp_all add: attached_def leak_attached_def leak_paused_def leak_finished_def
      leak_restarted_def)

lemma leak_start:
  "process_command stub leak_attached ''start'' alice =
     (BreakpointAt 2 (Some ''global g; g = 7''), leak_paused)"
proof -
  have "process_command stub leak_attached ''start'' alice = run stub leak_attached ''leak''"
    by (simp add: process_command_split [OF split1_words(5)] lower_ascii
        dispatch_start [OF attached_leak(1)])
  also have "\<dots> = (BreakpointAt 2 (Some ''global g; g = 7''), leak_paused)"
    by (simp add: run_def cont_def Let_def leak_attached_def leak_paused_def init_server_def
        leak_catalog_def leak_lines run_leak stub_def string_defs)
  finally show ?thesis .
qed

lemma leak_set_var_first:
  "process_command stub leak_paused ''set_var y g'' alice =
     (ErrException (name_error ''g''), leak_paused)"
proof -
  have "process_command stub leak_paused ''set_var y g'' alice =
          set_var stub leak_paused ''leak'' ''y g''"
    by (simp add: process_command_split [OF split1_more(5)] lower_set_var
        dispatch_set_var [OF attached_leak(2)])
  also have "\<dots> = (ErrException (name_error ''g''), leak_paused)"
    by (simp add: set_var_def split1_more(6) py_eval_stub leak_paused_def init_server_def
        stub_eval_g)
  finally show ?thesis .
qed

lemma leak_continue:
  "process_command stub leak_paused ''continue'' alice =
     (Finished ''leak'' [(''x'', 1)], leak_finished)"
proof -
  have "process_command stub leak_paused ''continue'' alice = cont stub leak_paused ''leak''"
    by (simp add: process_command_split [OF split1_words(6)] lower_ascii
        dispatch_continue [OF attached_leak(2)]) (simp add: leak_paused_def)
  also have "\<dots> = (Finished ''leak'' [(''x'', 1)], leak_finished)"
    by (simp add: cont_def Let_def leak_paused_def leak_finished_def init_server_def
        leak_catalog_def leak_lines run_leak_resume stub_def startswith_def)
  finally show ?thesis .
qed

lemma leak_restart:
  "process_command stub leak_finished ''start'' alice =
     (BreakpointAt 2 (Some ''global g; g = 7''), leak_restarted)"
proof -
  have "process_command stub leak_finished ''start'' alice = run stub leak_finished ''leak''"
    by (simp add: process_command_split [OF split1_words(5)] lower_ascii
        dispatch_start [OF attached_leak(3)])
  also have "\<dots> = (BreakpointAt 2 (Some ''global g; g = 7''), leak_restarted)"
    by (simp add: run_def cont_def Let_def leak_finished_def leak_restarted_def init_server_def
        leak_catalog_def leak_lines run_leak stub_def string_defs)
  finally show ?thesis .
qed

lemma leak_set_var_second:
  "process_command stub leak_restarted ''set_var y g'' alice =
     (VarSet ''y'' 7,
      leak_restarted\<lparr>heap := (heap leak_restarted)(2 := [(''x'', 1), (''y'', 7)])\<rparr>)"
proof -
  have "process_command stub leak_restarted ''set_var y g'' alice =
          set_var stub leak_restarted ''leak'' ''y g''"
    by (simp add: process_command_split [OF split1_more(5)] lower_set_var
        dispatch_set_var [OF attached_leak(4)])
  also have "\<dots> = (VarSet ''y'' 7,
      leak_restarted\<lparr>heap := (heap leak_restarted)(2 := [(''x'', 1), (''y'', 7)])\<rparr>)"
    by (simp add: set_var_def split1_more(6) py_eval_stub leak_restarted_def init_server_def
        stub_eval_g)
  finally show ?thesis .
qed

lemma leak_fields:
  "map_of (programs leak_finished) ''leak'' = Some leak_text"
  "breakpoints leak_finished ''leak'' = Some {|2|}"
  "module_globals leak_finished = [(''g'', 7)]"
  "next_ref leak_finished = 2"
  "contexts leak_finished = [''leak'' \<mapsto> 1]"
  "states leak_finished = [''leak'' \<mapsto> (2, 1)]"
  "heap leak_finished (Suc 0) = [(''x'', 1)]"
  by (simp_all add: leak_finished_def init_server_def leak_catalog_def)

lemma reachable_leak_finished: "reachable stub leak_finished"
proof -
  have "reachable stub ((init_server leak_catalog)\<lparr>module_globals := []\<rparr> :: int server)"
    by (rule reachable.start) (simp add: leak_catalog_def)
  then have r0: "reachable stub (init_server leak_catalog :: int server)"
    by (simp add: init_server_def)
  from reachable.command [OF r0, of "''add_breakpoint leak 2''" alice]
  have r1: "reachable stub ((init_server leak_catalog)\<lparr>breakpoints := [''leak'' \<mapsto> {|2|}]\<rparr>)"
    by (simp add: leak_add_breakpoint)
  from reachable.command [OF r1, of "''attach leak''" alice]
  have r2: "reachable stub leak_attached"
    by (simp add: leak_attach)
  from reachable.command [OF r2, of "''start''" alice]
  have r3: "reachable stub leak_paused"
    by (simp add: leak_start)
  from reachable.command [OF r3, of "''continue''" alice]
  show ?thesis
    by (simp add: leak_continue)
qed

section \<open>The commands on the demo session\<close>

lemma paused_fields:
  "''demo'' \<in> paused demo_paused"
  "states demo_paused ''demo'' = Some (Suc 0, Suc 0)"
  "map_of (programs demo_paused) ''demo'' = Some demo_text"
  "breakpoints demo_paused ''demo'' = Some {|2|}"
  "heap demo_paused (Suc 0) = [(''x'', 1)]"
  "module_globals demo_paused = []"
  by (simp_all add: demo_paused_def init_server_def demo_catalog_def)

lemma py_exec_stub: "py_exec stub = stub_exec"
  by (simp add: stub_def)

theorem continue_requires_paused_witness:
  "process_command stub (demo_attached Map.empty) ''continue'' alice =
     (ErrNotPaused ''demo'', demo_attached Map.empty) \<and>
   fst (process_command stub demo_paused ''continue'' alice) =
     Finished ''demo'' [(''x'', 3), (''y'', 2)] \<and>
   states (snd (process_command stub demo_paused ''continue'' alice)) ''demo'' = Some (3, 1) \<and>
   heap (snd (process_command stub demo_paused ''continue'' alice)) 1 = [(''x'', 3), (''y'', 2)] \<and>
   ''demo'' \<notin> paused (snd (process_command stub demo_paused ''continue'' alice))"
proof -
  have n: "''demo'' \<notin> paused (demo_attached Map.empty)"
    by (simp add: demo_attached_def init_server_def)
  have 1: "process_command stub (demo_attached Map.empty) ''continue'' alice =
     (ErrNotPaused ''demo'', demo_attached Map.empty)"
    by (rule continue_requires_paused [OF split1_words(6) lower_ascii(7) attached_demo,
          THEN conjunct1, THEN mp, OF n])
  have h: "''demo'' \<in> paused demo_paused \<and> states demo_paused ''demo'' = Some (Suc 0, Suc 0) \<and>
           map_of (programs demo_paused) ''demo'' = Some demo_text"
    by (simp add: paused_fields)
  from continue_requires_paused [OF split1_words(6) lower_ascii(7) attached_paused,
      where ip = stub and idx = "Suc 0" and r = "Suc 0" and src = demo_text,
      THEN conjunct2, THEN mp, OF h]
  have 2: "fst (process_command stub demo_paused ''continue'' alice) =
     Finished ''demo'' [(''x'', 3), (''y'', 2)] \<and>
   states (snd (process_command stub demo_paused ''continue'' alice)) ''demo'' = Some (3, 1) \<and>
   heap (snd (process_command stub demo_paused ''continue'' alice)) 1 = [(''x'', 3), (''y'', 2)] \<and>
   ''demo'' \<notin> paused (snd (process_command stub demo_paused ''continue'' alice))"
    by (simp add: py_exec_stub demo_lines paused_fields run_demo_bp2_resume startswith_def)
  from 1 2 show ?thesis by simp
qed

theorem interpreter_failure_witness:
  "cont stub broken_paused ''broken'' =
     (ErrOnLine 2 (name_error ''y''), broken_paused\<lparr>paused := {}\<rparr>) \<and>
   ''broken'' \<notin> executing (snd (cont stub broken_paused ''broken'')) \<and>
   ''broken'' \<notin> paused (snd (cont stub broken_paused ''broken'')) \<and>
   states (snd (cont stub broken_paused ''broken'')) = states broken_paused \<and>
   states (snd (cont stub broken_paused ''broken'')) ''broken'' = Some (1, 1) \<and>
   executable (splitlines broken_text ! 1) \<and>
   (\<exists>g0 c0. stub_exec ''x = y'' g0 c0 = ExecRaise (name_error ''y'') [] [(''q'', 1)])"
proof -
  have 1: "states broken_paused ''broken'' = Some (Suc 0, Suc 0)"
    and 2: "map_of (programs broken_paused) ''broken'' = Some broken_text"
    by (simp_all add: broken_fields)
  have 3: "run_loop (py_exec stub) (splitlines broken_text) (breakpoints broken_paused ''broken'')
             (Suc 0) (module_globals broken_paused) (heap broken_paused (Suc 0)) =
           Failed 2 (name_error ''y'') [] [(''q'', 1)]"
    by (simp add: py_exec_stub broken_lines run_broken_resume broken_fields)
  have same: "broken_paused\<lparr>module_globals := [],
                heap := (heap broken_paused)(Suc 0 := [(''q'', 1)]),
                executing := {}, paused := {}\<rparr> =
              broken_paused\<lparr>paused := {}\<rparr>"
    by (simp add: broken_paused_def init_server_def)
  from interpreter_failure [OF 1 2 3] show ?thesis
    by (simp add: same py_exec_stub broken_lines broken_fields string_defs)
qed

text \<open>
  As C7 is stated, the failure would leave a status and a line number behind. It leaves
  neither. The session sets a breakpoint at line 2 of \<open>broken\<close>, attaches and starts:
  the program pauses before its second statement. \<open>continue\<close> then fails on line 2,
  and the server is left as it was at the pause but for the marker \<open>paused\<close>. From the
  same pause, \<open>detach\<close> followed by \<open>attach broken\<close> runs no statement and fails
  nowhere, and leaves the server in that very state: nothing in it tells that a
  statement failed, or on which line.
\<close>

theorem failure_leaves_no_record_counterexample:
  "process_command stub (init_server broken_catalog) ''add_breakpoint broken 2'' alice =
     (BreakpointSet ''2'' ''broken'',
      (init_server broken_catalog)\<lparr>breakpoints := [''broken'' \<mapsto> {|2|}]\<rparr>) \<and>
   process_command stub ((init_server broken_catalog)\<lparr>breakpoints := [''broken'' \<mapsto> {|2|}]\<rparr>)
     ''attach broken'' alice = (Attached ''broken'', broken_attached) \<and>
   process_command stub broken_attached ''start'' alice =
     (BreakpointAt 2 (Some ''x = y''), broken_paused) \<and>
   process_command stub broken_paused ''continue'' alice =
     (ErrOnLine 2 (name_error ''y''), broken_paused\<lparr>paused := {}\<rparr>) \<and>
   process_command stub broken_paused ''detach'' alice =
     (Detached ''broken'', release broken_paused ''broken'') \<and>
   process_command stub (release broken_paused ''broken'') ''attach broken'' alice =
     (Attached ''broken'', broken_paused\<lparr>paused := {}\<rparr>) \<and>
   states (broken_paused\<lparr>paused := {}\<rparr>) ''broken'' = Some (1, 1) \<and>
   executing (broken_paused\<lparr>paused := {}\<rparr>) = {} \<and>
   paused (broken_paused\<lparr>paused := {}\<rparr>) = {}"
  by (simp add: broken_add_breakpoint broken_attach broken_start broken_continue
      broken_detach broken_reattach broken_fields)

lemma add_breakpoint_demo2:
  "process_command stub (init_server demo_catalog) ''add_breakpoint demo 2'' alice =
     (BreakpointSet ''2'' ''demo'',
      (init_server demo_catalog)\<lparr>breakpoints := [''demo'' \<mapsto> {|2|}]\<rparr>)"
  by (simp add: process_command_split [OF split1_words(7)] lower_ascii dispatch_add_breakpoint
      add_breakpoint_def setdefault_def string_defs py_int_def is_digit_def digit_val_def
      init_server_def demo_catalog_def)

text \<open>
  C9. The demo program \<open>x = 1\<close>, \<open>y = 2\<close>, \<open>x = x + y\<close> under the stub interpreter.
  Without breakpoints, \<open>attach demo\<close> answers "Attached to 'demo'" and \<open>start\<close> runs to
  the end, the reply listing \<open>x = 3\<close> and \<open>y = 2\<close>. With a breakpoint set at line 2,
  \<open>start\<close> pauses with a reply that names line 2 and the statement \<open>y = 2\<close>, and
  \<open>continue\<close> then finishes with \<open>x = 3\<close> and \<open>y = 2\<close>. Each command runs in the
  state the one before it left.
\<close>

theorem demo_scenarios:
  "process_command stub (init_server demo_catalog) ''attach demo'' alice =
     (Attached ''demo'', demo_attached Map.empty) \<and>
   fst (process_command stub (demo_attached Map.empty) ''start'' alice) =
     Finished ''demo'' [(''x'', 3), (''y'', 2)] \<and>
   process_command stub (init_server demo_catalog) ''add_breakpoint demo 2'' alice =
     (BreakpointSet ''2'' ''demo'',
      (init_server demo_catalog)\<lparr>breakpoints := [''demo'' \<mapsto> {|2|}]\<rparr>) \<and>
   process_command stub ((init_server demo_catalog)\<lparr>breakpoints := [''demo'' \<mapsto> {|2|}]\<rparr>)
       ''attach demo'' alice =
     (Attached ''demo'', demo_attached [''demo'' \<mapsto> {|2|}]) \<and>
   process_command stub (demo_attached [''demo'' \<mapsto> {|2|}]) ''start'' alice =
     (BreakpointAt 2 (Some ''y = 2''), demo_paused) \<and>
   fst (process_command stub demo_paused ''continue'' alice) =
     Finished ''demo'' [(''x'', 3), (''y'', 2)]"
proof -
  have "process_command stub (init_server demo_catalog) ''attach demo'' alice =
     (Attached ''demo'', demo_attached Map.empty)"
    using attach_demo [of Map.empty] by (simp add: init_server_def)
  then show ?thesis
    by (simp add: start_demo_free add_breakpoint_demo2 attach_demo start_demo_bp2
        continue_demo_bp2)
qed

section \<open>Attaching and detaching\<close>

lemma session_unique:
  "distinct (map snd xs) \<Longrightarrow> (p, a) \<in> set xs \<Longrightarrow> (q, a) \<in> set xs \<Longrightarrow> p = q"
  by (induction xs) (auto simp add: image_iff)

lemma find_session_distinct:
  "distinct (map snd xs) \<Longrightarrow> (q, a) \<in> set xs \<Longrightarrow> find (\<lambda>(p, u). u = a) xs = Some (q, a)"
  by (induction xs) (auto simp add: image_iff)

text \<open>
  C2. In every reachable state, a program has at most one attached session and a session
  is attached to at most one program. In such a state \<open>attach p\<close> from the session \<open>a\<close>
  answers NotFound when \<open>p\<close> is empty or not in the catalog; AlreadyAttached when \<open>p\<close>
  has an attached session; SessionBusy, naming the program \<open>q\<close> that \<open>a\<close> holds, when \<open>p\<close>
  is a free program of the catalog; and attaches \<open>a\<close> to \<open>p\<close> otherwise. The tests are
  made in this order. An \<open>attach\<close> that does not answer "Attached" leaves the server as
  it was.
\<close>

theorem attachment_exclusive:
  assumes "reachable ip s" and "py_split1 cmd = w # rest" and "lower w = ''attach''"
    and "p = (case rest of [] \<Rightarrow> [] | r # _ \<Rightarrow> r)"
  shows "(\<forall>x b c. (x, b) \<in> set (debugging s) \<and> (x, c) \<in> set (debugging s) \<longrightarrow> b = c) \<and>
         (\<forall>x y b. (x, b) \<in> set (debugging s) \<and> (y, b) \<in> set (debugging s) \<longrightarrow> x = y) \<and>
         (p = [] \<or> p \<notin> fst ` set (programs s) \<longrightarrow>
            process_command ip s cmd a = (ErrNotFound p, s)) \<and>
         (p \<in> fst ` set (debugging s) \<longrightarrow>
            process_command ip s cmd a = (ErrAlreadyDebugged p, s)) \<and>
         (p \<noteq> [] \<and> p \<in> fst ` set (programs s) \<and> p \<notin> fst ` set (debugging s) \<and>
          (q, a) \<in> set (debugging s) \<longrightarrow>
            process_command ip s cmd a = (ErrSessionBusy q, s)) \<and>
         (p \<noteq> [] \<and> p \<in> fst ` set (programs s) \<and> p \<notin> fst ` set (debugging s) \<and>
          a \<notin> snd ` set (debugging s) \<longrightarrow>
            fst (process_command ip s cmd a) = Attached p \<and>
            debugging (snd (process_command ip s cmd a)) = debugging s @ [(p, a)]) \<and>
         (fst (process_command ip s cmd a) \<noteq> Attached p \<longrightarrow>
            snd (process_command ip s cmd a) = s)"
proof -
  have c: "consistent s" using assms(1) by (rule reachable_consistent)
  then have d1: "distinct (map fst (debugging s))" and d2: "distinct (map snd (debugging s))"
    and ne: "[] \<notin> fst ` set (debugging s)"
    and known: "fst ` set (debugging s) \<subseteq> fst ` set (programs s)"
    by (simp_all add: consistent_def)
  have eq: "process_command ip s cmd a = attach s p a"
    using assms(3,4) by (simp add: process_command_split [OF assms(2)] dispatch_attach)
  have one_session: "\<forall>x b c. (x, b) \<in> set (debugging s) \<and> (x, c) \<in> set (debugging s) \<longrightarrow> b = c"
    using d1 by (auto dest: eq_key_imp_eq_value)
  have one_program: "\<forall>x y b. (x, b) \<in> set (debugging s) \<and> (y, b) \<in> set (debugging s) \<longrightarrow> x = y"
    using d2 by (auto dest: session_unique)
  have nf: "p = [] \<or> p \<notin> fst ` set (programs s) \<longrightarrow>
            process_command ip s cmd a = (ErrNotFound p, s)"
    by (simp add: eq attach_NotFound)
  have ad: "p \<in> fst ` set (debugging s) \<longrightarrow>
            process_command ip s cmd a = (ErrAlreadyDebugged p, s)"
  proof
    assume h: "p \<in> fst ` set (debugging s)"
    with ne have "p \<noteq> []" by blast
    moreover from h known have "p \<in> fst ` set (programs s)" by blast
    ultimately show "process_command ip s cmd a = (ErrAlreadyDebugged p, s)"
      using h by (simp add: eq attach_AlreadyDebugged)
  qed
  have sb: "p \<noteq> [] \<and> p \<in> fst ` set (programs s) \<and> p \<notin> fst ` set (debugging s) \<and>
          (q, a) \<in> set (debugging s) \<longrightarrow>
            process_command ip s cmd a = (ErrSessionBusy q, s)"
  proof
    assume h: "p \<noteq> [] \<and> p \<in> fst ` set (programs s) \<and> p \<notin> fst ` set (debugging s) \<and>
          (q, a) \<in> set (debugging s)"
    then have "find (\<lambda>(p, u). u = a) (debugging s) = Some (q, a)"
      using d2 by (simp add: find_session_distinct)
    with h show "process_command ip s cmd a = (ErrSessionBusy q, s)"
      by (simp add: eq attach_SessionBusy)
  qed
  have ok: "p \<noteq> [] \<and> p \<in> fst ` set (programs s) \<and> p \<notin> fst ` set (debugging s) \<and>
          a \<notin> snd ` set (debugging s) \<longrightarrow>
            fst (process_command ip s cmd a) = Attached p \<and>
            debugging (snd (process_command ip s cmd a)) = debugging s @ [(p, a)]"
    by (simp add: eq attach_Attached)
  have fail: "fst (process_command ip s cmd a) \<noteq> Attached p \<longrightarrow>
            snd (process_command ip s cmd a) = s"
  proof (cases rule: attach_cases [where args = p and s = s and a = a])
    case notfound
    then show ?thesis by (simp add: eq attach_NotFound)
  next
    case already
    then show ?thesis by (simp add: eq attach_AlreadyDebugged)
  next
    case (busy q u)
    then show ?thesis by (simp add: eq attach_SessionBusy)
  next
    case attached
    then show ?thesis by (simp add: eq attach_Attached)
  qed
  from one_session one_program nf ad sb ok fail show ?thesis by blast
qed


lemma attached_fields:
  "debugging (demo_attached B) = [(''demo'', alice)]"
  "programs (demo_attached B) = demo_catalog"
  "executing (demo_attached B) = {}"
  "paused (demo_attached B) = {}"
  "states (demo_attached B) = [''demo'' \<mapsto> (0, 0)]"
  "contexts (demo_attached B) = [''demo'' \<mapsto> 0]"
  "next_ref (demo_attached B) = 1"
  "breakpoints (demo_attached B) = B"
  "module_globals (demo_attached B) = []"
  by (simp_all add: demo_attached_def init_server_def)

lemma catalog_names: "fst ` set demo_catalog = {''demo'', ''other''}"
  by (simp add: demo_catalog_def)

theorem attachment_exclusive_witness:
  "process_command stub (demo_attached Map.empty) ''attach nosuch'' bob =
     (ErrNotFound ''nosuch'', demo_attached Map.empty) \<and>
   process_command stub (demo_attached Map.empty) ''attach demo'' bob =
     (ErrAlreadyDebugged ''demo'', demo_attached Map.empty) \<and>
   process_command stub (demo_attached Map.empty) ''attach other'' alice =
     (ErrSessionBusy ''demo'', demo_attached Map.empty) \<and>
   fst (process_command stub (demo_attached Map.empty) ''attach other'' bob) =
     Attached ''other'' \<and>
   debugging (snd (process_command stub (demo_attached Map.empty) ''attach other'' bob)) =
     [(''demo'', alice), (''other'', bob)]"
proof -
  have pn: "''nosuch'' = (case [''nosuch''] of [] \<Rightarrow> [] | r # _ \<Rightarrow> r)"
    and pd: "''demo'' = (case [''demo''] of [] \<Rightarrow> [] | r # _ \<Rightarrow> r)"
    and po: "''other'' = (case [''other''] of [] \<Rightarrow> [] | r # _ \<Rightarrow> r)"
    by simp_all
  from attachment_exclusive [OF reachable_demo_attached split1_words(3) lower_ascii(4) pn,
      where a = bob]
  have 1: "process_command stub (demo_attached Map.empty) ''attach nosuch'' bob =
     (ErrNotFound ''nosuch'', demo_attached Map.empty)"
    by (simp add: attached_fields catalog_names)
  from attachment_exclusive [OF reachable_demo_attached split1_words(1) lower_ascii(4) pd,
      where a = bob]
  have 2: "process_command stub (demo_attached Map.empty) ''attach demo'' bob =
     (ErrAlreadyDebugged ''demo'', demo_attached Map.empty)"
    by (simp add: attached_fields catalog_names)
  from attachment_exclusive [OF reachable_demo_attached split1_words(2) lower_ascii(4) po,
      where a = alice and q = "''demo''"]
  have 3: "process_command stub (demo_attached Map.empty) ''attach other'' alice =
     (ErrSessionBusy ''demo'', demo_attached Map.empty)"
    by (simp add: attached_fields catalog_names)
  from attachment_exclusive [OF reachable_demo_attached split1_words(2) lower_ascii(4) po,
      where a = bob]
  have 4: "fst (process_command stub (demo_attached Map.empty) ''attach other'' bob) =
     Attached ''other'' \<and>
   debugging (snd (process_command stub (demo_attached Map.empty) ''attach other'' bob)) =
     [(''demo'', alice), (''other'', bob)]"
    using alice_bob by (simp add: attached_fields catalog_names)
  from 1 2 3 4 show ?thesis by simp
qed


lemma run_eq:
  "run ip s P =
     cont ip (s\<lparr>executing := insert P (executing s), paused := paused s - {P},
                contexts := (contexts s)(P \<mapsto> next_ref s),
                heap := (heap s)(next_ref s := []), next_ref := Suc (next_ref s),
                states := (states s)(P \<mapsto> (0, next_ref s))\<rparr>) P"
  by (simp add: run_def Let_def)

text \<open>
  C6, amended. \<open>start\<close> from a session attached to \<open>P\<close>, whatever the state of the
  server: the context of \<open>P\<close> is a new dict, at the reference \<open>next_ref\<close>, and the
  reply, the stored cursor and the content of the new dict are those of the run loop
  started at cursor 0 on the empty context; of the cursor and the context before nothing
  enters. In a reachable state no program holds the reference \<open>next_ref\<close>, so the new
  dict is shared with nothing. The module globals are not reset: the loop starts on them
  as the commands before have left them, so a name that a statement of an earlier run
  has bound there is bound in the new run.
\<close>

theorem start_resets:
  assumes "py_split1 cmd = w # rest" and "lower w = ''start''"
    and "attached s a = Some P" and "map_of (programs s) P = Some src"
  shows "contexts (snd (process_command ip s cmd a)) P = Some (next_ref s) \<and>
         (case run_loop (py_exec ip) (splitlines src) (breakpoints s P) 0
             (module_globals s) [] of
            Paused i h c \<Rightarrow>
              fst (process_command ip s cmd a) =
                BreakpointAt (int i + 1)
                  (if i < length (splitlines src) then Some (strip (splitlines src ! i))
                   else None) \<and>
              states (snd (process_command ip s cmd a)) P = Some (i, next_ref s) \<and>
              heap (snd (process_command ip s cmd a)) (next_ref s) = c \<and>
              module_globals (snd (process_command ip s cmd a)) = h
          | Completed i h c \<Rightarrow>
              fst (process_command ip s cmd a) =
                Finished P (filter (\<lambda>(k, v). \<not> startswith ''__'' k) c) \<and>
              states (snd (process_command ip s cmd a)) P = Some (i, next_ref s) \<and>
              heap (snd (process_command ip s cmd a)) (next_ref s) = c \<and>
              module_globals (snd (process_command ip s cmd a)) = h
          | Failed i e h c \<Rightarrow>
              fst (process_command ip s cmd a) = ErrOnLine (int i) e \<and>
              states (snd (process_command ip s cmd a)) P = Some (0, next_ref s) \<and>
              heap (snd (process_command ip s cmd a)) (next_ref s) = c \<and>
              module_globals (snd (process_command ip s cmd a)) = h) \<and>
         (reachable ip s \<longrightarrow>
            (\<forall>q. contexts s q \<noteq> Some (next_ref s)) \<and>
            (\<forall>q i. states s q \<noteq> Some (i, next_ref s)))"
proof -
  let ?s1 = "s\<lparr>executing := insert P (executing s), paused := paused s - {P},
                contexts := (contexts s)(P \<mapsto> next_ref s),
                heap := (heap s)(next_ref s := []), next_ref := Suc (next_ref s),
                states := (states s)(P \<mapsto> (0, next_ref s))\<rparr>"
  have eq: "process_command ip s cmd a = cont ip ?s1 P"
    using assms(2)
    by (simp add: process_command_split [OF assms(1)] dispatch_start [OF assms(3)] run_eq)
  have st: "states ?s1 P = Some (0, next_ref s)"
    and pr: "map_of (programs ?s1) P = Some src"
    using assms(4) by simp_all
  have ctx: "contexts (snd (process_command ip s cmd a)) P = Some (next_ref s)"
    by (simp add: eq cont_frame)
  have loop: "case run_loop (py_exec ip) (splitlines src) (breakpoints s P) 0
             (module_globals s) [] of
            Paused i h c \<Rightarrow>
              fst (process_command ip s cmd a) =
                BreakpointAt (int i + 1)
                  (if i < length (splitlines src) then Some (strip (splitlines src ! i))
                   else None) \<and>
              states (snd (process_command ip s cmd a)) P = Some (i, next_ref s) \<and>
              heap (snd (process_command ip s cmd a)) (next_ref s) = c \<and>
              module_globals (snd (process_command ip s cmd a)) = h
          | Completed i h c \<Rightarrow>
              fst (process_command ip s cmd a) =
                Finished P (filter (\<lambda>(k, v). \<not> startswith ''__'' k) c) \<and>
              states (snd (process_command ip s cmd a)) P = Some (i, next_ref s) \<and>
              heap (snd (process_command ip s cmd a)) (next_ref s) = c \<and>
              module_globals (snd (process_command ip s cmd a)) = h
          | Failed i e h c \<Rightarrow>
              fst (process_command ip s cmd a) = ErrOnLine (int i) e \<and>
              states (snd (process_command ip s cmd a)) P = Some (0, next_ref s) \<and>
              heap (snd (process_command ip s cmd a)) (next_ref s) = c \<and>
              module_globals (snd (process_command ip s cmd a)) = h"
  proof (cases "run_loop (py_exec ip) (splitlines src) (breakpoints s P) 0
             (module_globals s) []")
    case (Paused i h c)
    then have "run_loop (py_exec ip) (splitlines src) (breakpoints ?s1 P) 0
                 (module_globals ?s1) (heap ?s1 (next_ref s)) = Paused i h c" by simp
    from cont_Paused [OF st pr this] Paused show ?thesis by (simp add: eq)
  next
    case (Completed i h c)
    then have "run_loop (py_exec ip) (splitlines src) (breakpoints ?s1 P) 0
                 (module_globals ?s1) (heap ?s1 (next_ref s)) = Completed i h c" by simp
    from cont_Completed [OF st pr this] Completed show ?thesis by (simp add: eq)
  next
    case (Failed i e h c)
    then have "run_loop (py_exec ip) (splitlines src) (breakpoints ?s1 P) 0
                 (module_globals ?s1) (heap ?s1 (next_ref s)) = Failed i e h c" by simp
    from cont_Failed [OF st pr this] Failed show ?thesis by (simp add: eq)
  qed
  have fresh: "reachable ip s \<longrightarrow>
            (\<forall>q. contexts s q \<noteq> Some (next_ref s)) \<and>
            (\<forall>q i. states s q \<noteq> Some (i, next_ref s))"
  proof
    assume "reachable ip s"
    then have "consistent s" by (rule reachable_consistent)
    then have a: "\<forall>p r. contexts s p = Some r \<longrightarrow> r < next_ref s"
      and b: "\<forall>p i r. states s p = Some (i, r) \<longrightarrow> r < next_ref s"
      by (simp_all add: consistent_def)
    from a have "\<forall>q. contexts s q \<noteq> Some (next_ref s)" by (metis less_irrefl)
    moreover from b have "\<forall>q i. states s q \<noteq> Some (i, next_ref s)" by (metis less_irrefl)
    ultimately show "(\<forall>q. contexts s q \<noteq> Some (next_ref s)) \<and>
            (\<forall>q i. states s q \<noteq> Some (i, next_ref s))" ..
  qed
  from ctx loop fresh show ?thesis by blast
qed

theorem start_resets_witness:
  "contexts (snd (process_command stub leak_finished ''start'' alice)) ''leak'' = Some 2 \<and>
   fst (process_command stub leak_finished ''start'' alice) =
     BreakpointAt 2 (Some ''global g; g = 7'') \<and>
   states (snd (process_command stub leak_finished ''start'' alice)) ''leak'' = Some (1, 2) \<and>
   heap (snd (process_command stub leak_finished ''start'' alice)) 2 = [(''x'', 1)] \<and>
   module_globals (snd (process_command stub leak_finished ''start'' alice)) = [(''g'', 7)] \<and>
   states leak_finished ''leak'' = Some (2, 1) \<and>
   heap leak_finished 1 = [(''x'', 1)] \<and>
   (\<forall>q. contexts leak_finished q \<noteq> Some 2) \<and>
   (\<forall>q i. states leak_finished q \<noteq> Some (i, 2))"
proof -
  from start_resets [OF split1_words(5) lower_ascii(6) attached_leak(3) leak_fields(1),
      where ip = stub]
    reachable_leak_finished
  show ?thesis
    by (simp add: py_exec_stub leak_lines leak_fields run_leak string_defs)
qed

text \<open>
  As C6 is stated, no binding of an earlier run would reach the new run. One in the
  module globals does. The program \<open>leak\<close> is \<open>x = 1\<close> followed by
  \<open>global g; g = 7\<close>, with a breakpoint at line 2. In the first run, paused at line 2,
  \<open>set_var y g\<close> fails: \<open>g\<close> is bound nowhere. \<open>continue\<close> finishes that run, its
  second statement binding \<open>g\<close> in the module globals. After a second \<open>start\<close> the
  program is paused at line 2 again, in a new context that holds \<open>x\<close> alone, and before
  the statement that binds \<open>g\<close> has run again; the same \<open>set_var y g\<close> now succeeds and
  sets \<open>y\<close> to 7, the value that the first run left.
\<close>

theorem start_keeps_module_globals_counterexample:
  "process_command stub (init_server leak_catalog) ''add_breakpoint leak 2'' alice =
     (BreakpointSet ''2'' ''leak'',
      (init_server leak_catalog)\<lparr>breakpoints := [''leak'' \<mapsto> {|2|}]\<rparr>) \<and>
   process_command stub ((init_server leak_catalog)\<lparr>breakpoints := [''leak'' \<mapsto> {|2|}]\<rparr>)
     ''attach leak'' alice = (Attached ''leak'', leak_attached) \<and>
   process_command stub leak_attached ''start'' alice =
     (BreakpointAt 2 (Some ''global g; g = 7''), leak_paused) \<and>
   process_command stub leak_paused ''set_var y g'' alice =
     (ErrException (name_error ''g''), leak_paused) \<and>
   process_command stub leak_paused ''continue'' alice =
     (Finished ''leak'' [(''x'', 1)], leak_finished) \<and>
   process_command stub leak_finished ''start'' alice =
     (BreakpointAt 2 (Some ''global g; g = 7''), leak_restarted) \<and>
   process_command stub leak_restarted ''set_var y g'' alice =
     (VarSet ''y'' 7,
      leak_restarted\<lparr>heap := (heap leak_restarted)(2 := [(''x'', 1), (''y'', 7)])\<rparr>) \<and>
   contexts leak_restarted ''leak'' = Some 2 \<and>
   heap leak_restarted 2 = [(''x'', 1)] \<and>
   module_globals leak_restarted = [(''g'', 7)]"
  by (simp add: leak_add_breakpoint leak_attach leak_start leak_set_var_first leak_continue
      leak_restart leak_set_var_second)
    (simp add: leak_restarted_def init_server_def)


lemma cleanup_loop_distinct:
  "distinct (map snd xs) \<Longrightarrow>
   cleanup_loop xs a s =
     (case find (\<lambda>(p, u). u = a) xs of None \<Rightarrow> s | Some (p, u) \<Rightarrow> release s p)"
proof (induction xs arbitrary: s)
  case Nil
  then show ?case by simp
next
  case (Cons x xs)
  obtain p u where x: "x = (p, u)" by (cases x)
  show ?case
  proof (cases "u = a")
    case True
    with Cons.prems x have "a \<notin> snd ` set xs" by simp
    then have "find (\<lambda>(p, u). u = a) xs = None" by (simp add: find_session_None)
    with Cons x True show ?thesis by simp
  next
    case False
    with Cons x show ?thesis by simp
  qed
qed

lemma release_fields:
  "programs (release s p) = programs s"
  "debugging (release s p) = AList.delete p (debugging s)"
  "executing (release s p) = executing s - {p}"
  "paused (release s p) = paused s - {p}"
  "states (release s p) = states s"
  "contexts (release s p) = contexts s"
  "heap (release s p) = heap s"
  "breakpoints (release s p) = breakpoints s"
  by (simp_all add: release_def)

lemma attach_clients: "fst (attach (s\<lparr>clients := C\<rparr>) p b) = fst (attach s p b)"
  by (simp add: attach_def Let_def split: option.split prod.split)

text \<open>
  C8, amended. In a reachable state where the session \<open>a\<close> is attached to \<open>P\<close>,
  \<open>detach\<close> answers "Detached from 'P'"; afterwards \<open>P\<close> has no session, \<open>a\<close> has no
  program, \<open>P\<close> is neither executing nor paused, and the stored cursors and contexts are
  as before. The cleanup of a dropped connection leaves the same attachments and markers.
  After either, \<open>attach P\<close> succeeds from every session that holds no attachment.
\<close>

theorem detach_releases:
  assumes "reachable ip s" and "(P, a) \<in> set (debugging s)"
    and "py_split1 cmd = w # rest" and "lower w = ''detach''"
    and "py_split1 cmd' = [w', P]" and "lower w' = ''attach''"
  shows "fst (process_command ip s cmd a) = Detached P \<and>
         debugging (disconnect s a) = debugging (snd (process_command ip s cmd a)) \<and>
         executing (disconnect s a) = executing (snd (process_command ip s cmd a)) \<and>
         paused (disconnect s a) = paused (snd (process_command ip s cmd a)) \<and>
         P \<notin> fst ` set (debugging (snd (process_command ip s cmd a))) \<and>
         a \<notin> snd ` set (debugging (snd (process_command ip s cmd a))) \<and>
         P \<notin> executing (snd (process_command ip s cmd a)) \<and>
         P \<notin> paused (snd (process_command ip s cmd a)) \<and>
         states (snd (process_command ip s cmd a)) = states s \<and>
         contexts (snd (process_command ip s cmd a)) = contexts s \<and>
         heap (snd (process_command ip s cmd a)) = heap s \<and>
         states (disconnect s a) = states s \<and>
         contexts (disconnect s a) = contexts s \<and>
         heap (disconnect s a) = heap s \<and>
         (b \<notin> snd ` set (debugging (snd (process_command ip s cmd a))) \<longrightarrow>
            fst (process_command ip (snd (process_command ip s cmd a)) cmd' b) = Attached P \<and>
            fst (process_command ip (disconnect s a) cmd' b) = Attached P)"
proof -
  have c: "consistent s" using assms(1) by (rule reachable_consistent)
  then have d1: "distinct (map fst (debugging s))" and d2: "distinct (map snd (debugging s))"
    and ne: "[] \<notin> fst ` set (debugging s)"
    and known: "fst ` set (debugging s) \<subseteq> fst ` set (programs s)"
    by (simp_all add: consistent_def)
  have f: "find (\<lambda>(p, u). u = a) (debugging s) = Some (P, a)"
    using d2 assms(2) by (rule find_session_distinct)
  have det: "process_command ip s cmd a = (Detached P, release s P)"
    using assms(4) f by (simp add: process_command_split [OF assms(3)] dispatch_detach detach_def)
  have dis: "disconnect s a = (release s P)\<lparr>clients := clients s - {a}\<rparr>"
    using d2 f by (simp add: disconnect_def cleanup_loop_distinct release_def)
  have Pne: "P \<noteq> []" using ne assms(2) by (metis fst_conv image_eqI)
  have Pk: "P \<in> fst ` set (programs s)" using known assms(2) by (metis fst_conv image_eqI subsetD)
  have gone: "P \<notin> fst ` set (AList.delete P (debugging s))"
    by (auto simp add: delete_filter)
  have agone: "a \<notin> snd ` set (AList.delete P (debugging s))"
  proof
    assume "a \<in> snd ` set (AList.delete P (debugging s))"
    then obtain q where q: "(q, a) \<in> set (debugging s)" and "q \<noteq> P"
      by (auto simp add: delete_filter)
    with session_unique [OF d2 q assms(2)] show False by simp
  qed
  have att: "b \<notin> snd ` set (AList.delete P (debugging s)) \<Longrightarrow>
               fst (attach (release s P) P b) = Attached P"
    using Pne Pk gone by (simp add: attach_Attached release_fields)
  have cmd': "\<And>t. process_command ip t cmd' b = attach t P b"
    using assms(6) by (simp add: process_command_split [OF assms(5)] dispatch_attach)
  show ?thesis
    using gone agone att
    by (simp add: det dis cmd' release_fields attach_clients)
qed


lemma attach_other:
  "process_command stub (demo_attached Map.empty) ''attach other'' bob =
     (Attached ''other'', demo_both)"
  using alice_bob
  by (simp add: process_command_split [OF split1_words(2)] lower_ascii dispatch_attach
      attach_def init_server_def demo_catalog_def demo_attached_def demo_both_def)

lemma reachable_demo_both: "reachable stub demo_both"
  using reachable.command [OF reachable_demo_attached, of "''attach other''" bob]
  by (simp add: attach_other)

lemma detach_demo_both:
  "process_command stub demo_both ''detach'' alice =
     (Detached ''demo'', release demo_both ''demo'')"
  by (simp add: process_command_split [OF split1_words(4)] lower_ascii dispatch_detach
      detach_def demo_both_def)

lemma detach_demo_attached:
  "process_command stub (demo_attached B) ''detach'' alice =
     (Detached ''demo'', release (demo_attached B) ''demo'')"
  by (simp add: process_command_split [OF split1_words(4)] lower_ascii dispatch_detach
      detach_def demo_attached_def)

text \<open>
  As C8 is stated, any session could attach after a \<open>detach\<close>. A session that holds
  another program cannot: with the first session on \<open>demo\<close> and the second on
  \<open>other\<close>, after the first detaches the second is still refused \<open>demo\<close>.
\<close>

theorem detach_then_attach_counterexample:
  "reachable stub demo_both \<and>
   fst (process_command stub demo_both ''detach'' alice) = Detached ''demo'' \<and>
   fst (process_command stub (snd (process_command stub demo_both ''detach'' alice))
          ''attach demo'' bob) = ErrSessionBusy ''other''"
proof -
  have "fst (process_command stub (release demo_both ''demo'') ''attach demo'' bob) =
          ErrSessionBusy ''other''"
    using alice_bob
    by (simp add: process_command_split [OF split1_words(1)] lower_ascii dispatch_attach
        attach_def release_def demo_both_def init_server_def demo_catalog_def)
  then show ?thesis
    by (simp add: reachable_demo_both detach_demo_both)
qed

theorem detach_releases_witness:
  "fst (process_command stub (demo_attached Map.empty) ''detach'' alice) = Detached ''demo'' \<and>
   ''demo'' \<notin> fst ` set (debugging (snd (process_command stub (demo_attached Map.empty)
                                          ''detach'' alice))) \<and>
   states (snd (process_command stub (demo_attached Map.empty) ''detach'' alice)) =
     states (demo_attached Map.empty) \<and>
   fst (process_command stub
          (snd (process_command stub (demo_attached Map.empty) ''detach'' alice))
          ''attach demo'' bob) = Attached ''demo'' \<and>
   fst (process_command stub (disconnect (demo_attached Map.empty) alice) ''attach demo'' bob) =
     Attached ''demo''"
proof -
  have mem: "(''demo'', alice) \<in> set (debugging (demo_attached Map.empty))"
    by (simp add: attached_fields)
  have free: "bob \<notin> snd ` set (debugging (snd (process_command stub (demo_attached Map.empty)
                                               ''detach'' alice)))"
    by (simp add: detach_demo_attached release_fields attached_fields)
  from detach_releases [OF reachable_demo_attached mem split1_words(4) lower_ascii(5)
      split1_words(1) lower_ascii(4), where b = bob] free
  show ?thesis by simp
qed

section \<open>A whole session: \<open>start\<close> and \<open>continue\<close> until the program no longer pauses\<close>

lemma attached_debugging:
  "debugging s' = debugging s \<Longrightarrow> attached s' a = attached s a"
  by (simp add: attached_def)

lemma dispatch_continue_unattached:
  assumes "attached s a = None"
  shows "dispatch ip s ''continue'' args a = (ErrNeedsAttachment ''continue'', s)"
proof (cases "find (\<lambda>(p, u). u = a) (debugging s)")
  case None
  then show ?thesis by (simp add: dispatch_def)
next
  case (Some pu)
  obtain p u where pu: "pu = (p, u)" by (cases pu)
  with Some assms have "p = []" by (simp add: attached_def split: if_splits)
  with Some pu show ?thesis by (simp add: dispatch_def)
qed

lemma continue_eq:
  "process_command ip s ''continue'' a =
     (case attached s a of
        None \<Rightarrow> (ErrNeedsAttachment ''continue'', s)
      | Some P \<Rightarrow> if P \<notin> paused s then (ErrNotPaused P, s) else cont ip s P)"
  by (simp add: process_command_split [OF split1_words(6)] lower_ascii
      dispatch_continue dispatch_continue_unattached split: option.split)

lemma remaining_eq:
  "attached s a = Some P \<Longrightarrow> states s P = Some (idx, r) \<Longrightarrow>
   map_of (programs s) P = Some src \<Longrightarrow> remaining s a = length (splitlines src) - idx"
  by (simp add: remaining_def)

lemma cont_decreases:
  assumes "attached s a = Some P"
  shows "remaining (snd (cont ip s P)) a +
           (case pause_line (fst (cont ip s P)) of None \<Rightarrow> 0 | Some l \<Rightarrow> 1)
         \<le> remaining s a"
proof (cases "states s P")
  case None
  then show ?thesis by (simp add: cont_def)
next
  case (Some ir)
  obtain idx r where ir: "ir = (idx, r)" by (cases ir)
  with Some have st: "states s P = Some (idx, r)" by simp
  show ?thesis
  proof (cases "map_of (programs s) P")
    case None
    with st assms show ?thesis by (simp add: cont_def Let_def remaining_def attached_def)
  next
    case (Some src)
    have "attached (snd (cont ip s P)) a = attached s a"
      by (rule attached_debugging) (simp add: cont_frame)
    with assms have att: "attached (snd (cont ip s P)) a = Some P" by simp
    have pr: "map_of (programs (snd (cont ip s P))) P = Some src"
      using Some by (simp add: cont_frame)
    have before: "remaining s a = length (splitlines src) - idx"
      using assms st Some by (rule remaining_eq)
    show ?thesis
    proof (cases "run_loop (py_exec ip) (splitlines src) (breakpoints s P) idx
             (module_globals s) (heap s r)")
      case (Paused i h c)
      from run_loop_Paused [OF Paused] have b: "idx < i" "i \<le> length (splitlines src)"
        by simp_all
      have "states (snd (cont ip s P)) P = Some (i, r)"
        by (simp add: cont_Paused [OF st Some Paused])
      from remaining_eq [OF att this pr] before b show ?thesis
        by (simp add: cont_Paused [OF st Some Paused])
    next
      case (Completed i h c)
      from run_loop_Completed [OF Completed] have b: "idx \<le> i" by simp
      have "states (snd (cont ip s P)) P = Some (i, r)"
        by (simp add: cont_Completed [OF st Some Completed])
      from remaining_eq [OF att this pr] before b show ?thesis
        by (simp add: cont_Completed [OF st Some Completed])
    next
      case (Failed i e h c)
      have "states (snd (cont ip s P)) P = Some (idx, r)"
        using st by (simp add: cont_Failed [OF st Some Failed])
      from remaining_eq [OF att this pr] before show ?thesis
        by (simp add: cont_Failed [OF st Some Failed])
    qed
  qed
qed

lemma continue_decreases:
  "remaining (snd (process_command ip s ''continue'' a)) a +
     (case pause_line (fst (process_command ip s ''continue'' a)) of None \<Rightarrow> 0 | Some l \<Rightarrow> 1)
   \<le> remaining s a"
proof (cases "attached s a")
  case None
  then show ?thesis by (simp add: continue_eq)
next
  case (Some P)
  then show ?thesis using cont_decreases [OF Some, of ip] by (simp add: continue_eq)
qed

text \<open>
  A session that sends \<open>start\<close> and then \<open>continue\<close> for as long as the reply is a
  pause at a breakpoint: \<open>replies\<close> collects the replies, beginning with the one in hand.
  Each \<open>continue\<close> that pauses moves the stored cursor forward, so the session ends.
\<close>

function replies :: "'v interp \<Rightarrow> addr \<Rightarrow> 'v reply \<Rightarrow> 'v server \<Rightarrow> 'v reply list" where
  "replies ip a r s =
     r # (case pause_line r of
            None \<Rightarrow> []
          | Some l \<Rightarrow> replies ip a (fst (process_command ip s ''continue'' a))
                       (snd (process_command ip s ''continue'' a)))"
  by pat_completeness auto
termination
proof (relation "measure (\<lambda>(ip, a, r, s).
         remaining s a + (case pause_line r of None \<Rightarrow> 0 | Some l \<Rightarrow> 1))")
  show "wf (measure (\<lambda>(ip :: 'v interp, a, r :: 'v reply, s).
         remaining s a + (case pause_line r of None \<Rightarrow> 0 | Some l \<Rightarrow> 1)))"
    by simp
next
  fix ip :: "'v interp" and a and r :: "'v reply" and s :: "'v server" and l
  assume "pause_line r = Some l"
  then show "((ip, a, fst (process_command ip s ''continue'' a),
               snd (process_command ip s ''continue'' a)), ip, a, r, s)
             \<in> measure (\<lambda>(ip, a, r, s).
                  remaining s a + (case pause_line r of None \<Rightarrow> 0 | Some l \<Rightarrow> 1))"
    using continue_decreases [of ip s a] by (simp add: split_beta)
qed

declare replies.simps [simp del]

definition run_session :: "'v interp \<Rightarrow> 'v server \<Rightarrow> addr \<Rightarrow> 'v reply list" where
  "run_session ip s a =
     replies ip a (fst (process_command ip s ''start'' a))
       (snd (process_command ip s ''start'' a))"

definition visited :: "'v reply list \<Rightarrow> int list" where
  "visited rs = List.map_filter pause_line rs"

fun is_finished :: "'v reply \<Rightarrow> bool" where
  "is_finished (Finished p vs) = True"
| "is_finished _ = False"

definition registered :: "'v server \<Rightarrow> string \<Rightarrow> int \<Rightarrow> bool" where
  "registered s p L = (case breakpoints s p of None \<Rightarrow> False | Some S \<Rightarrow> L |\<in>| S)"

text \<open>
  What holds between two commands of such a session: the session is attached to \<open>P\<close>,
  whose text and breakpoints are unchanged, and after a pause at line \<open>l\<close> the program is
  paused with its cursor before line \<open>l\<close>, a registered line.
\<close>

definition midrun ::
  "'v server \<Rightarrow> addr \<Rightarrow> string \<Rightarrow> string \<Rightarrow> int fset option \<Rightarrow> 'v reply \<Rightarrow> bool" where
  "midrun s a P src B r =
     (attached s a = Some P \<and> map_of (programs s) P = Some src \<and> breakpoints s P = B \<and>
      (case pause_line r of
         None \<Rightarrow> True
       | Some l \<Rightarrow> P \<in> paused s \<and>
                  (\<exists>i ref. l = int i + 1 \<and> states s P = Some (i, ref) \<and> hits B i)))"

lemma cont_midrun:
  assumes att: "attached s a = Some P" and pr: "map_of (programs s) P = Some src"
    and st: "states s P = Some (i, ref)"
  shows "midrun (snd (cont ip s P)) a P src (breakpoints s P) (fst (cont ip s P)) \<and>
         (\<forall>l'. pause_line (fst (cont ip s P)) = Some l' \<longrightarrow>
            int i + 1 < l' \<and>
            (\<forall>j. i \<le> j \<and> int j + 2 < l' \<longrightarrow>
               \<not> (executable (splitlines src ! j) \<and> hits (breakpoints s P) (Suc j)))) \<and>
         (is_finished (fst (cont ip s P)) \<longrightarrow>
            (\<forall>j. i \<le> j \<and> j < length (splitlines src) \<longrightarrow>
               \<not> (executable (splitlines src ! j) \<and> hits (breakpoints s P) (Suc j))))"
proof (cases "run_loop (py_exec ip) (splitlines src) (breakpoints s P) i
          (module_globals s) (heap s ref)")
  case (Paused i' h c)
  note eq = cont_Paused [OF st pr Paused]
  from run_loop_Paused [OF Paused]
  have lt: "i < i'" and hit: "hits (breakpoints s P) i'"
    and none: "\<forall>j. i \<le> j \<and> Suc j < i' \<longrightarrow>
                 \<not> (executable (splitlines src ! j) \<and> hits (breakpoints s P) (Suc j))"
    by simp_all
  have "attached (snd (cont ip s P)) a = attached s a"
    by (rule attached_debugging) (simp add: cont_frame)
  with att have "attached (snd (cont ip s P)) a = Some P" by simp
  then have mid: "midrun (snd (cont ip s P)) a P src (breakpoints s P) (fst (cont ip s P))"
    using pr hit by (simp add: midrun_def eq)
  have none': "\<forall>j. i \<le> j \<and> int j + 2 < int i' + 1 \<longrightarrow>
                 \<not> (executable (splitlines src ! j) \<and> hits (breakpoints s P) (Suc j))"
  proof (intro allI impI)
    fix j assume "i \<le> j \<and> int j + 2 < int i' + 1"
    then have "i \<le> j \<and> Suc j < i'" by simp
    with none show "\<not> (executable (splitlines src ! j) \<and> hits (breakpoints s P) (Suc j))"
      by blast
  qed
  from mid lt none' show ?thesis by (simp add: eq)
next
  case (Completed i' h c)
  note eq = cont_Completed [OF st pr Completed]
  from run_loop_Completed [OF Completed]
  have none: "\<forall>j. i \<le> j \<and> j < length (splitlines src) \<longrightarrow>
                 \<not> (executable (splitlines src ! j) \<and> hits (breakpoints s P) (Suc j))"
    by simp
  have "attached (snd (cont ip s P)) a = attached s a"
    by (rule attached_debugging) (simp add: cont_frame)
  with att have "attached (snd (cont ip s P)) a = Some P" by simp
  then have mid: "midrun (snd (cont ip s P)) a P src (breakpoints s P) (fst (cont ip s P))"
    using pr by (simp add: midrun_def eq)
  from mid none show ?thesis by (simp add: eq)
next
  case (Failed i' e h c)
  note eq = cont_Failed [OF st pr Failed]
  have "attached (snd (cont ip s P)) a = attached s a"
    by (rule attached_debugging) (simp add: cont_frame)
  with att have "attached (snd (cont ip s P)) a = Some P" by simp
  then have mid: "midrun (snd (cont ip s P)) a P src (breakpoints s P) (fst (cont ip s P))"
    using pr by (simp add: midrun_def eq)
  from mid show ?thesis by (simp add: eq)
qed

lemma continue_midrun:
  assumes mid: "midrun s a P src B r" and pause: "pause_line r = Some l"
  shows "midrun (snd (process_command ip s ''continue'' a)) a P src B
           (fst (process_command ip s ''continue'' a)) \<and>
         (\<forall>l'. pause_line (fst (process_command ip s ''continue'' a)) = Some l' \<longrightarrow>
            l < l' \<and>
            (\<forall>j. nat l - 1 \<le> j \<and> int j + 2 < l' \<longrightarrow>
               \<not> (executable (splitlines src ! j) \<and> hits B (Suc j)))) \<and>
         (is_finished (fst (process_command ip s ''continue'' a)) \<longrightarrow>
            (\<forall>j. nat l - 1 \<le> j \<and> j < length (splitlines src) \<longrightarrow>
               \<not> (executable (splitlines src ! j) \<and> hits B (Suc j))))"
proof -
  from mid pause obtain i ref where att: "attached s a = Some P"
    and pr: "map_of (programs s) P = Some src" and B: "breakpoints s P = B"
    and p: "P \<in> paused s" and l: "l = int i + 1" and st: "states s P = Some (i, ref)"
    by (auto simp add: midrun_def)
  have eq: "process_command ip s ''continue'' a = cont ip s P"
    using att p by (simp add: continue_eq)
  have i: "nat (int i + 1) - Suc 0 = i" by simp
  from cont_midrun [OF att pr st, of ip] show ?thesis
    by (simp add: eq B i l)
qed

lemma start_midrun:
  assumes att: "attached s a = Some P" and pr: "map_of (programs s) P = Some src"
  shows "midrun (snd (process_command ip s ''start'' a)) a P src (breakpoints s P)
           (fst (process_command ip s ''start'' a)) \<and>
         (\<forall>l'. pause_line (fst (process_command ip s ''start'' a)) = Some l' \<longrightarrow>
            (\<forall>j. int j + 2 < l' \<longrightarrow>
               \<not> (executable (splitlines src ! j) \<and> hits (breakpoints s P) (Suc j)))) \<and>
         (is_finished (fst (process_command ip s ''start'' a)) \<longrightarrow>
            (\<forall>j. j < length (splitlines src) \<longrightarrow>
               \<not> (executable (splitlines src ! j) \<and> hits (breakpoints s P) (Suc j))))"
proof -
  let ?s1 = "s\<lparr>executing := insert P (executing s), paused := paused s - {P},
                contexts := (contexts s)(P \<mapsto> next_ref s),
                heap := (heap s)(next_ref s := []), next_ref := Suc (next_ref s),
                states := (states s)(P \<mapsto> (0, next_ref s))\<rparr>"
  have eq: "process_command ip s ''start'' a = cont ip ?s1 P"
    by (simp add: process_command_split [OF split1_words(5)] lower_ascii
        dispatch_start [OF att] run_eq)
  have "attached ?s1 a = attached s a"
    by (rule attached_debugging) simp
  with att have att1: "attached ?s1 a = Some P" by simp
  have pr1: "map_of (programs ?s1) P = Some src" using pr by simp
  have st1: "states ?s1 P = Some (0, next_ref s)" by simp
  from cont_midrun [OF att1 pr1 st1, of ip] show ?thesis
    by (simp add: eq)
qed

lemma replies_stop: "pause_line r = None \<Longrightarrow> replies ip a r s = [r]"
  by (subst replies.simps) simp

lemma replies_go:
  "pause_line r = Some l \<Longrightarrow>
   replies ip a r s =
     r # replies ip a (fst (process_command ip s ''continue'' a))
           (snd (process_command ip s ''continue'' a))"
  by (subst replies.simps) simp

lemma replies_nonempty: "replies ip a r s \<noteq> []"
  by (subst replies.simps) simp

lemma visited_stop: "pause_line r = None \<Longrightarrow> visited (replies ip a r s) = []"
  by (simp add: replies_stop visited_def map_filter_simps)

lemma visited_go:
  "pause_line r = Some l \<Longrightarrow>
   visited (replies ip a r s) =
     l # visited (replies ip a (fst (process_command ip s ''continue'' a))
                    (snd (process_command ip s ''continue'' a)))"
  by (simp add: replies_go visited_def map_filter_simps)

lemma last_replies_go:
  "pause_line r = Some l \<Longrightarrow>
   last (replies ip a r s) =
     last (replies ip a (fst (process_command ip s ''continue'' a))
             (snd (process_command ip s ''continue'' a)))"
  by (simp add: replies_go replies_nonempty)

lemma last_replies_no_pause: "pause_line (last (replies ip a r s)) = None"
proof (induction ip a r s rule: replies.induct)
  case (1 ip a r s)
  show ?case
  proof (cases "pause_line r")
    case None
    then show ?thesis by (simp add: replies_stop)
  next
    case (Some l)
    with "1.IH" [OF Some] show ?thesis by (simp add: last_replies_go)
  qed
qed

lemma replies_visit:
  assumes "midrun s a P src B r"
  shows "sorted_wrt (<) (visited (replies ip a r s)) \<and>
         (\<forall>L \<in> set (visited (replies ip a r s)). \<exists>i. L = int i + 1 \<and> hits B i) \<and>
         (\<forall>l. pause_line r = Some l \<longrightarrow> (\<forall>L \<in> set (visited (replies ip a r s)). l \<le> L)) \<and>
         (is_finished (last (replies ip a r s)) \<longrightarrow>
            (\<forall>l j. pause_line r = Some l \<and> nat l - 1 \<le> j \<and> j < length (splitlines src) \<and>
                   executable (splitlines src ! j) \<and> hits B (Suc j) \<longrightarrow>
                   int j + 2 \<in> set (visited (replies ip a r s))))"
  using assms
proof (induction ip a r s rule: replies.induct)
  case (1 ip a r s)
  show ?case
  proof (cases "pause_line r")
    case None
    then show ?thesis by (simp add: visited_stop)
  next
    case (Some l)
    let ?r' = "fst (process_command ip s ''continue'' a)"
    let ?s' = "snd (process_command ip s ''continue'' a)"
    let ?vs' = "visited (replies ip a ?r' ?s')"
    note vs = visited_go [OF Some, of ip a s]
    from continue_midrun [OF "1.prems" Some, of ip]
    have mid': "midrun ?s' a P src B ?r'"
      and inc: "\<forall>l'. pause_line ?r' = Some l' \<longrightarrow>
            l < l' \<and>
            (\<forall>j. nat l - 1 \<le> j \<and> int j + 2 < l' \<longrightarrow>
               \<not> (executable (splitlines src ! j) \<and> hits B (Suc j)))"
      and fin: "is_finished ?r' \<longrightarrow>
            (\<forall>j. nat l - 1 \<le> j \<and> j < length (splitlines src) \<longrightarrow>
               \<not> (executable (splitlines src ! j) \<and> hits B (Suc j)))"
      by blast+
    from "1.IH" [OF Some mid']
    have srt: "sorted_wrt (<) ?vs'"
      and reg: "\<forall>L \<in> set ?vs'. \<exists>i. L = int i + 1 \<and> hits B i"
      and low: "\<forall>l'. pause_line ?r' = Some l' \<longrightarrow> (\<forall>L \<in> set ?vs'. l' \<le> L)"
      and cov: "is_finished (last (replies ip a ?r' ?s')) \<longrightarrow>
            (\<forall>l' j. pause_line ?r' = Some l' \<and> nat l' - 1 \<le> j \<and>
                   j < length (splitlines src) \<and>
                   executable (splitlines src ! j) \<and> hits B (Suc j) \<longrightarrow>
                   int j + 2 \<in> set ?vs')"
      by blast+
    have here: "\<exists>i. l = int i + 1 \<and> hits B i"
      using "1.prems" Some by (auto simp add: midrun_def)
    have above: "\<forall>L \<in> set ?vs'. l < L"
    proof (cases "pause_line ?r'")
      case None
      then show ?thesis by (simp add: visited_stop)
    next
      case (Some l')
      with inc have "l < l'" by simp
      moreover from low Some have "\<forall>L \<in> set ?vs'. l' \<le> L" by simp
      ultimately show ?thesis by fastforce
    qed
    have c1: "sorted_wrt (<) (visited (replies ip a r s))"
      using srt above by (simp add: vs)
    have c2: "\<forall>L \<in> set (visited (replies ip a r s)). \<exists>i. L = int i + 1 \<and> hits B i"
      using reg here by (simp add: vs)
    have c3: "\<forall>m. pause_line r = Some m \<longrightarrow>
                (\<forall>L \<in> set (visited (replies ip a r s)). m \<le> L)"
      using above Some by (simp add: vs) fastforce
    have c4: "is_finished (last (replies ip a r s)) \<longrightarrow>
            (\<forall>m j. pause_line r = Some m \<and> nat m - 1 \<le> j \<and> j < length (splitlines src) \<and>
                   executable (splitlines src ! j) \<and> hits B (Suc j) \<longrightarrow>
                   int j + 2 \<in> set (visited (replies ip a r s)))"
    proof (intro impI allI)
      fix m j
      assume finished: "is_finished (last (replies ip a r s))"
      assume h: "pause_line r = Some m \<and> nat m - 1 \<le> j \<and> j < length (splitlines src) \<and>
                   executable (splitlines src ! j) \<and> hits B (Suc j)"
      with Some have m: "m = l" by simp
      from finished have finished': "is_finished (last (replies ip a ?r' ?s'))"
        by (simp add: last_replies_go [OF Some])
      have "int j + 2 \<in> set ?vs'"
      proof (cases "pause_line ?r'")
        case None
        then have "replies ip a ?r' ?s' = [?r']" by (rule replies_stop)
        with finished' have "is_finished ?r'" by simp
        with fin h m show ?thesis by blast
      next
        case (Some l')
        from mid' Some obtain i' where l': "l' = int i' + 1"
          by (auto simp add: midrun_def)
        from inc Some h m have "\<not> int j + 2 < l'" by blast
        then have "l' = int j + 2 \<or> nat l' - 1 \<le> j" using l' by auto
        then show ?thesis
        proof
          assume "l' = int j + 2"
          then show ?thesis using visited_go [OF Some, of ip a ?s'] by simp
        next
          assume "nat l' - 1 \<le> j"
          with cov finished' Some h show ?thesis by blast
        qed
      qed
      then show "int j + 2 \<in> set (visited (replies ip a r s))" by (simp add: vs)
    qed
    from c1 c2 c3 c4 show ?thesis by blast
  qed
qed

text \<open>
  A program with an empty second line, attached with a breakpoint at line 3.
\<close>

definition gap_text :: string where
  "gap_text = ''x = 1'' @ [CHR 0x0A, CHR 0x0A] @ ''y = 2''"

definition gap_attached :: "int server" where
  "gap_attached =
     (init_server [(''gap'', gap_text)])
       \<lparr>breakpoints := [''gap'' \<mapsto> {|3|}],
        contexts := [''gap'' \<mapsto> 0], debugging := [(''gap'', alice)],
        states := [''gap'' \<mapsto> (0, 0)], heap := (\<lambda>r. [])(0 := []), next_ref := 1\<rparr>"

lemma hits_registered: "hits (breakpoints s P) i = registered s P (int i + 1)"
  by (simp add: hits_def registered_def)

text \<open>
  C1, amended. For a session attached to a program, \<open>start\<close> followed by \<open>continue\<close>
  while the reply is a pause ends with a reply that is not a pause; it pauses only at
  registered breakpoint lines, in strictly ascending order, hence at each line at most
  once; and when the last reply is "Finished", it has paused at every registered line
  \<open>L\<close> that comes directly after an executable line of the program, that is, the line
  \<open>L - 1\<close> exists and is neither blank nor a comment.
\<close>

theorem breakpoints_visited_in_order:
  assumes "attached s a = Some P" and "map_of (programs s) P = Some src"
  shows "pause_line (last (run_session ip s a)) = None \<and>
         sorted_wrt (<) (visited (run_session ip s a)) \<and>
         (\<forall>L \<in> set (visited (run_session ip s a)). registered s P L) \<and>
         (is_finished (last (run_session ip s a)) \<longrightarrow>
            (\<forall>L. registered s P L \<and> 2 \<le> L \<and> L \<le> int (length (splitlines src)) + 1 \<and>
                 executable (splitlines src ! nat (L - 2)) \<longrightarrow>
                 L \<in> set (visited (run_session ip s a))))"
proof -
  let ?r = "fst (process_command ip s ''start'' a)"
  let ?s = "snd (process_command ip s ''start'' a)"
  let ?B = "breakpoints s P"
  let ?vs = "visited (replies ip a ?r ?s)"
  from start_midrun [OF assms, of ip]
  have mid: "midrun ?s a P src ?B ?r"
    and first: "\<forall>l'. pause_line ?r = Some l' \<longrightarrow>
            (\<forall>j. int j + 2 < l' \<longrightarrow>
               \<not> (executable (splitlines src ! j) \<and> hits ?B (Suc j)))"
    and fin: "is_finished ?r \<longrightarrow>
            (\<forall>j. j < length (splitlines src) \<longrightarrow>
               \<not> (executable (splitlines src ! j) \<and> hits ?B (Suc j)))"
    by blast+
  from replies_visit [OF mid, of ip]
  have srt: "sorted_wrt (<) ?vs"
    and reg: "\<forall>L \<in> set ?vs. \<exists>i. L = int i + 1 \<and> hits ?B i"
    and cov: "is_finished (last (replies ip a ?r ?s)) \<longrightarrow>
            (\<forall>l j. pause_line ?r = Some l \<and> nat l - 1 \<le> j \<and> j < length (splitlines src) \<and>
                   executable (splitlines src ! j) \<and> hits ?B (Suc j) \<longrightarrow>
                   int j + 2 \<in> set ?vs)"
    by blast+
  have c0: "pause_line (last (run_session ip s a)) = None"
    by (simp add: run_session_def last_replies_no_pause)
  have c1: "sorted_wrt (<) (visited (run_session ip s a))"
    using srt by (simp add: run_session_def)
  have c2: "\<forall>L \<in> set (visited (run_session ip s a)). registered s P L"
  proof
    fix L assume "L \<in> set (visited (run_session ip s a))"
    then have "L \<in> set ?vs" by (simp add: run_session_def)
    with reg obtain i where "L = int i + 1" and "hits ?B i" by blast
    then show "registered s P L" by (simp add: hits_registered)
  qed
  have c3: "is_finished (last (run_session ip s a)) \<longrightarrow>
            (\<forall>L. registered s P L \<and> 2 \<le> L \<and> L \<le> int (length (splitlines src)) + 1 \<and>
                 executable (splitlines src ! nat (L - 2)) \<longrightarrow>
                 L \<in> set (visited (run_session ip s a)))"
  proof (intro impI allI)
    fix L
    assume finished: "is_finished (last (run_session ip s a))"
    assume h: "registered s P L \<and> 2 \<le> L \<and> L \<le> int (length (splitlines src)) + 1 \<and>
                 executable (splitlines src ! nat (L - 2))"
    define j where "j = nat (L - 2)"
    from h have L: "L = int j + 2"
      by (simp add: j_def)
    from h have "0 \<le> L - 2" and "L - 2 < int (length (splitlines src))"
      by simp_all
    then have jn: "j < length (splitlines src)"
      by (simp add: j_def nat_less_iff)
    from h have "registered s P (int j + 2)"
      by (simp only: L)
    then have hit: "hits ?B (Suc j)"
      by (simp add: hits_registered add.commute)
    from h have "executable (splitlines src ! j)"
      by (simp add: j_def)
    with hit have q: "executable (splitlines src ! j) \<and> hits ?B (Suc j)" by simp
    from finished have finished': "is_finished (last (replies ip a ?r ?s))"
      by (simp add: run_session_def)
    have "int j + 2 \<in> set ?vs"
    proof (cases "pause_line ?r")
      case None
      then have "replies ip a ?r ?s = [?r]" by (rule replies_stop)
      with finished' have "is_finished ?r" by simp
      with fin jn q show ?thesis by blast
    next
      case (Some l)
      from mid Some obtain i where l: "l = int i + 1"
        by (auto simp add: midrun_def)
      from first Some q have "\<not> int j + 2 < l" by blast
      then have "l = int j + 2 \<or> nat l - 1 \<le> j" using l by auto
      then show ?thesis
      proof
        assume "l = int j + 2"
        then show ?thesis using visited_go [OF Some, of ip a ?s] by simp
      next
        assume "nat l - 1 \<le> j"
        with cov finished' Some jn q show ?thesis by blast
      qed
    qed
    then show "L \<in> set (visited (run_session ip s a))"
      by (simp add: run_session_def L)
  qed
  from c0 c1 c2 c3 show ?thesis by blast
qed

lemma gap_lines: "splitlines gap_text = [''x = 1'', [], ''y = 2'']"
  by (simp add: gap_text_def splitlines_def is_linebreak_def)

lemma run_gap:
  "run_loop stub_exec [''x = 1'', [], ''y = 2''] (Some {|3|}) 0 g [] =
     Completed 3 g [(''x'', 1), (''y'', 2)]"
  by (simp add: run_loop_unfold strip_def is_space_def stub_x1 stub_y2 startswith_def)

lemma start_completed:
  assumes "attached s a = Some P" and "map_of (programs s) P = Some src"
    and "run_loop (py_exec ip) (splitlines src) (breakpoints s P) 0
             (module_globals s) [] = Completed i h c"
  shows "fst (process_command ip s ''start'' a) =
           Finished P (filter (\<lambda>(k, v). \<not> startswith ''__'' k) c)"
proof -
  let ?s1 = "s\<lparr>executing := insert P (executing s), paused := paused s - {P},
                contexts := (contexts s)(P \<mapsto> next_ref s),
                heap := (heap s)(next_ref s := []), next_ref := Suc (next_ref s),
                states := (states s)(P \<mapsto> (0, next_ref s))\<rparr>"
  have eq: "process_command ip s ''start'' a = cont ip ?s1 P"
    by (simp add: process_command_split [OF split1_words(5)] lower_ascii
        dispatch_start [OF assms(1)] run_eq)
  have st: "states ?s1 P = Some (0, next_ref s)"
    and pr: "map_of (programs ?s1) P = Some src"
    using assms(2) by simp_all
  have "run_loop (py_exec ip) (splitlines src) (breakpoints ?s1 P) 0
                 (module_globals ?s1) (heap ?s1 (next_ref s)) =
          Completed i h c"
    using assms(3) by simp
  from cont_Completed [OF st pr this] show ?thesis by (simp add: eq)
qed

lemma session_completed:
  assumes "attached s a = Some P" and "map_of (programs s) P = Some src"
    and "run_loop (py_exec ip) (splitlines src) (breakpoints s P) 0
             (module_globals s) [] = Completed i h c"
  shows "run_session ip s a = [Finished P (filter (\<lambda>(k, v). \<not> startswith ''__'' k) c)]"
  by (simp add: run_session_def replies_stop start_completed [OF assms])

lemma session_demo_bp1:
  "run_session stub (demo_attached [''demo'' \<mapsto> {|1|}]) alice =
     [Finished ''demo'' [(''x'', 3), (''y'', 2)]]"
proof -
  have pr: "map_of (programs (demo_attached [''demo'' \<mapsto> {|1|}])) ''demo'' = Some demo_text"
    by (simp add: attached_fields demo_catalog_def)
  have loop: "run_loop (py_exec stub) (splitlines demo_text)
                (breakpoints (demo_attached [''demo'' \<mapsto> {|1|}]) ''demo'') 0
                (module_globals (demo_attached [''demo'' \<mapsto> {|1|}])) [] =
              Completed 3 [] [(''x'', 3), (''y'', 2)]"
    by (simp add: py_exec_stub demo_lines attached_fields run_demo_bp1)
  show ?thesis
    by (simp add: session_completed [OF attached_demo pr loop] startswith_def)
qed

lemma attached_gap: "attached gap_attached alice = Some ''gap''"
  by (simp add: attached_def gap_attached_def)

lemma session_gap:
  "run_session stub gap_attached alice = [Finished ''gap'' [(''x'', 1), (''y'', 2)]]"
proof -
  have pr: "map_of (programs gap_attached) ''gap'' = Some gap_text"
    by (simp add: gap_attached_def init_server_def)
  have loop: "run_loop (py_exec stub) (splitlines gap_text)
                (breakpoints gap_attached ''gap'') 0 (module_globals gap_attached) [] =
              Completed 3 [] [(''x'', 1), (''y'', 2)]"
    by (simp add: py_exec_stub gap_lines run_gap gap_attached_def init_server_def)
  show ?thesis
    by (simp add: session_completed [OF attached_gap pr loop] startswith_def)
qed

lemma session_demo_bp2:
  "run_session stub (demo_attached [''demo'' \<mapsto> {|2|}]) alice =
     [BreakpointAt 2 (Some ''y = 2''), Finished ''demo'' [(''x'', 3), (''y'', 2)]]"
proof -
  have 1: "replies stub alice (BreakpointAt 2 (Some ''y = 2'')) demo_paused =
             BreakpointAt 2 (Some ''y = 2'') #
             replies stub alice (fst (process_command stub demo_paused ''continue'' alice))
               (snd (process_command stub demo_paused ''continue'' alice))"
    by (rule replies_go) simp
  have 2: "replies stub alice (fst (process_command stub demo_paused ''continue'' alice))
               (snd (process_command stub demo_paused ''continue'' alice)) =
           [Finished ''demo'' [(''x'', 3), (''y'', 2)]]"
    by (simp add: continue_demo_bp2 replies_stop)
  show ?thesis
    by (simp add: run_session_def start_demo_bp2 1 2)
qed

text \<open>
  As C1 is stated, every registered line is visited. A breakpoint at line 1 of the demo
  program is not: the loop looks for a breakpoint only after it has executed a
  statement, and then at the number of the next line. Nor is a breakpoint at line 3 of
  the program with an empty line 2, which the loop passes without that test.
\<close>

theorem breakpoints_visited_counterexample:
  "process_command stub (init_server demo_catalog) ''add_breakpoint demo 1'' alice =
     (BreakpointSet ''1'' ''demo'',
      (init_server demo_catalog)\<lparr>breakpoints := [''demo'' \<mapsto> {|1|}]\<rparr>) \<and>
   process_command stub ((init_server demo_catalog)\<lparr>breakpoints := [''demo'' \<mapsto> {|1|}]\<rparr>)
       ''attach demo'' alice =
     (Attached ''demo'', demo_attached [''demo'' \<mapsto> {|1|}]) \<and>
   registered (demo_attached [''demo'' \<mapsto> {|1|}]) ''demo'' 1 \<and>
   run_session stub (demo_attached [''demo'' \<mapsto> {|1|}]) alice =
     [Finished ''demo'' [(''x'', 3), (''y'', 2)]] \<and>
   splitlines gap_text = [''x = 1'', [], ''y = 2''] \<and>
   registered gap_attached ''gap'' 3 \<and>
   run_session stub gap_attached alice = [Finished ''gap'' [(''x'', 1), (''y'', 2)]]"
proof -
  have "process_command stub (init_server demo_catalog) ''add_breakpoint demo 1'' alice =
     (BreakpointSet ''1'' ''demo'',
      (init_server demo_catalog)\<lparr>breakpoints := [''demo'' \<mapsto> {|1|}]\<rparr>)"
    by (simp add: process_command_split [OF split1_words(8)] lower_ascii
        dispatch_add_breakpoint add_breakpoint_def setdefault_def string_defs py_int_def
        is_digit_def digit_val_def init_server_def demo_catalog_def)
  moreover have "registered (demo_attached [''demo'' \<mapsto> {|1|}]) ''demo'' 1"
    by (simp add: registered_def attached_fields)
  moreover have "registered gap_attached ''gap'' 3"
    by (simp add: registered_def gap_attached_def)
  ultimately show ?thesis
    by (simp add: attach_demo session_demo_bp1 session_gap gap_lines)
qed

theorem breakpoints_visited_in_order_witness:
  "is_finished (last (run_session stub (demo_attached [''demo'' \<mapsto> {|2|}]) alice)) \<and>
   pause_line (last (run_session stub (demo_attached [''demo'' \<mapsto> {|2|}]) alice)) = None \<and>
   sorted_wrt (<) (visited (run_session stub (demo_attached [''demo'' \<mapsto> {|2|}]) alice)) \<and>
   registered (demo_attached [''demo'' \<mapsto> {|2|}]) ''demo'' 2 \<and>
   2 \<in> set (visited (run_session stub (demo_attached [''demo'' \<mapsto> {|2|}]) alice))"
proof -
  have pr: "map_of (programs (demo_attached [''demo'' \<mapsto> {|2|}])) ''demo'' = Some demo_text"
    by (simp add: attached_fields demo_catalog_def)
  have fin: "is_finished (last (run_session stub (demo_attached [''demo'' \<mapsto> {|2|}]) alice))"
    by (simp add: session_demo_bp2)
  have reg: "registered (demo_attached [''demo'' \<mapsto> {|2|}]) ''demo'' 2"
    by (simp add: registered_def attached_fields)
  have ex: "executable (splitlines demo_text ! nat (2 - 2))"
    by (simp add: demo_lines executable_def string_defs)
  note inst = breakpoints_visited_in_order [OF attached_demo pr, of stub]
  from inst have a: "pause_line (last (run_session stub (demo_attached [''demo'' \<mapsto> {|2|}])
                      alice)) = None"
    and b: "sorted_wrt (<) (visited (run_session stub (demo_attached [''demo'' \<mapsto> {|2|}])
                      alice))"
    by blast+
  from inst fin
  have "\<forall>L. registered (demo_attached [''demo'' \<mapsto> {|2|}]) ''demo'' L \<and> 2 \<le> L \<and>
            L \<le> int (length (splitlines demo_text)) + 1 \<and>
            executable (splitlines demo_text ! nat (L - 2)) \<longrightarrow>
            L \<in> set (visited (run_session stub (demo_attached [''demo'' \<mapsto> {|2|}]) alice))"
    by blast
  then have "registered (demo_attached [''demo'' \<mapsto> {|2|}]) ''demo'' 2 \<and> (2::int) \<le> 2 \<and>
            2 \<le> int (length (splitlines demo_text)) + 1 \<and>
            executable (splitlines demo_text ! nat (2 - 2)) \<longrightarrow>
            2 \<in> set (visited (run_session stub (demo_attached [''demo'' \<mapsto> {|2|}]) alice))"
    by (rule spec)
  with reg ex have c: "2 \<in> set (visited (run_session stub (demo_attached [''demo'' \<mapsto> {|2|}])
                         alice))"
    by (simp add: demo_lines)
  from fin a b reg c show ?thesis by simp
qed

end
